theory Spec2Isabelle
  imports Main "HOL-Library.AList"
begin

section \<open>turnip: choosing the record shape of a JSON document\<close>

text \<open>
  The package registers candidate struct types, walks each of them once into a map from
  dotted paths to JSON type tags (\<^verbatim>\<open>buildPathsForRoot\<close>), prunes the entries that two
  candidates share (\<^verbatim>\<open>makeUniquePaths\<close>) and, for a document, returns a candidate one of
  whose remaining entries the document has (\<^verbatim>\<open>ResolveJSON\<close>). The definitions follow
  \<^verbatim>\<open>resolver.go\<close>, \<^verbatim>\<open>unmarshaler.go\<close> and \<^verbatim>\<open>parameter.go\<close>.
\<close>

subsection \<open>Strings\<close>

text \<open>
  The strings the code handles are field names, struct tags, type names, paths and
  messages: Go strings that hold UTF-8 text. Such a string is the list of its runes (code
  points); \<open>str\<close> is a literal of ASCII characters. Input buffers (\<^verbatim>\<open>[]byte\<close>) and
  panic messages stay byte lists.
\<close>

type_synonym rune = nat

type_synonym gostring = "rune list"

definition str :: "string \<Rightarrow> gostring" where
  "str s = map of_char s"

subsection \<open>Types of the libraries the code reads\<close>

text \<open>The type tags of gjson, in the order of its constants.\<close>

datatype gjson_Type =
  gjson_Null | gjson_False | gjson_Number | gjson_String | gjson_True | gjson_JSON

text \<open>The kinds of package reflect.\<close>

datatype Kind =
  reflect_Invalid | reflect_Bool
| reflect_Int | reflect_Int8 | reflect_Int16 | reflect_Int32 | reflect_Int64
| reflect_Uint | reflect_Uint8 | reflect_Uint16 | reflect_Uint32 | reflect_Uint64
| reflect_Uintptr | reflect_Float32 | reflect_Float64
| reflect_Complex64 | reflect_Complex128
| reflect_Array | reflect_Chan | reflect_Func | reflect_Interface | reflect_Map
| reflect_Pointer | reflect_Slice | reflect_String | reflect_Struct
| reflect_UnsafePointer

text \<open>
  A \<^verbatim>\<open>reflect.Type\<close> is what the code observes of it: its kind, its \<^verbatim>\<open>String()\<close>, and
  for a struct the list \<^verbatim>\<open>reflect.VisibleFields\<close> returns. Two types are the same value
  of Go when they are the same type descriptor; \<open>Ident\<close> stands for that identity, since
  \<^verbatim>\<open>String()\<close> need not tell two types apart. Of a \<^verbatim>\<open>reflect.StructField\<close> the code reads
  the name, \<^verbatim>\<open>PkgPath\<close> (empty for an exported field), \<^verbatim>\<open>Tag.Get("json")\<close> and the type.
\<close>

datatype rtype =
  RType (Ident: nat) (Kind: Kind) (String: gostring) (Fields: "StructField list")
and StructField =
  StructField (Name: gostring) (PkgPath: gostring) (Tag_json: gostring) (Type: rtype)

definition IsExported :: "StructField \<Rightarrow> bool" where
  "IsExported f = (PkgPath f = [])"

subsection \<open>Errors and panics\<close>

text \<open>
  An error is made by \<^verbatim>\<open>errors.New\<close> or by \<^verbatim>\<open>fmt.Errorf\<close> around a cause (the operand
  of \<^verbatim>\<open>%w\<close>); \<open>fmt_Errorf\<close> carries the formatted message. A call returns, fails with an
  error, or panics.
\<close>

datatype error = errors_New gostring | fmt_Errorf gostring error

fun Error :: "error \<Rightarrow> gostring" where
  "Error (errors_New s) = s"
| "Error (fmt_Errorf s e) = s"

fun errors_Is :: "error \<Rightarrow> error \<Rightarrow> bool" where
  "errors_Is (errors_New s) target = (errors_New s = target)"
| "errors_Is (fmt_Errorf s e) target = (fmt_Errorf s e = target \<or> errors_Is e target)"

datatype 'a outcome = Return 'a | Fail error | Panic string

definition ErrUnsupportedType :: error where
  "ErrUnsupportedType = errors_New (str ''unsupported type'')"

definition ErrNoMatch :: error where
  "ErrNoMatch = errors_New (str ''no match'')"

definition jsonIgnoreTag :: gostring where
  "jsonIgnoreTag = (str ''-'')"

subsection \<open>Names and paths\<close>

text \<open>
  \<^verbatim>\<open>unicode.ToLower\<close> maps the ASCII letters \<^verbatim>\<open>A\<close> to \<^verbatim>\<open>Z\<close> to \<^verbatim>\<open>a\<close> to \<^verbatim>\<open>z\<close>, leaves the
  other ASCII runes, and looks every other rune up in the case tables of package unicode.
  The tables are not part of the repository: \<open>lowerCase\<close> stands for their lower-case
  mapping (\<^verbatim>\<open>unicode.To(unicode.LowerCase, r)\<close>) and is an argument of every function
  that normalises a name. \<^verbatim>\<open>strings.ToLower\<close> maps \<^verbatim>\<open>unicode.ToLower\<close> over the runes of
  the string (for a string of ASCII it does the same byte by byte). The names normalised
  are field names, which are Go identifiers and so valid UTF-8.
  \<^verbatim>\<open>cutsetString\<close> removes the characters of the cutset one after the other;
  \<^verbatim>\<open>strings.ReplaceAll(s, c, "")\<close> for a one-rune \<^verbatim>\<open>c\<close> is \<^const>\<open>removeAll\<close>.
\<close>

definition unicode_ToLower :: "(rune \<Rightarrow> rune) \<Rightarrow> rune \<Rightarrow> rune" where
  "unicode_ToLower lowerCase r =
     (if r \<le> 127 then (if 65 \<le> r \<and> r \<le> 90 then r + 32 else r) else lowerCase r)"

definition strings_ToLower :: "(rune \<Rightarrow> rune) \<Rightarrow> gostring \<Rightarrow> gostring" where
  "strings_ToLower lowerCase s = map (unicode_ToLower lowerCase) s"

definition strings_HasSuffix :: "gostring \<Rightarrow> gostring \<Rightarrow> bool" where
  "strings_HasSuffix s suffix =
     (length suffix \<le> length s \<and> drop (length s - length suffix) s = suffix)"

fun cutsetString :: "gostring \<Rightarrow> gostring \<Rightarrow> gostring" where
  "cutsetString s [] = s"
| "cutsetString s (c # cutset) = cutsetString (removeAll c s) cutset"

definition normalizeName :: "(rune \<Rightarrow> rune) \<Rightarrow> gostring \<Rightarrow> gostring" where
  "normalizeName lowerCase name = cutsetString (strings_ToLower lowerCase name) (str '' _-'')"

definition appendToPath :: "(rune \<Rightarrow> rune) \<Rightarrow> gostring \<Rightarrow> gostring \<Rightarrow> gostring" where
  "appendToPath lowerCase path name =
     (let name = normalizeName lowerCase name in
      if length path = 0 \<or> strings_HasSuffix path (str ''.'') then path @ name
      else path @ (str ''.'') @ name)"

text \<open>
  For evaluating the functions on given names, the rows of the case tables for the Latin-1
  supplement: the letters U+00C0 to U+00DE (all but the multiplication sign U+00D7) have
  their lower case 32 further on. The excerpt leaves every other rune; names of ASCII
  runes never reach the table.
\<close>

definition lowerCase_Latin1 :: "rune \<Rightarrow> rune" where
  "lowerCase_Latin1 r = (if 192 \<le> r \<and> r \<le> 222 \<and> r \<noteq> 215 then r + 32 else r)"

definition getJSONName :: "StructField \<Rightarrow> gostring" where
  "getJSONName f =
     (let tag = Tag_json f in if tag = jsonIgnoreTag then jsonIgnoreTag else Name f)"

subsection \<open>The shape walker\<close>

text \<open>
  \<^verbatim>\<open>jsonPaths\<close> is a Go map from path to type tag: an association list, read with
  \<^const>\<open>map_of\<close>, written with \<^const>\<open>AList.update\<close> (an assignment to a key that is
  there replaces its value) and \<^const>\<open>AList.delete\<close>. The order of the list is the order
  in which a \<^verbatim>\<open>range\<close> produces the entries; Go leaves that order open, so the theorems
  below are stated for every list.
\<close>

type_synonym jsonPaths = "(gostring \<times> gjson_Type) list"

text \<open>
  \<^verbatim>\<open>getJSONType\<close>. The switch names every kind of package reflect, so its default branch
  (\<^verbatim>\<open>unknown type\<close>) has no kind left. The integer \<^verbatim>\<open>-1\<close> returned beside an error is
  never read.
\<close>

definition unsupported :: "rtype \<Rightarrow> error" where
  "unsupported t = fmt_Errorf (Error ErrUnsupportedType @ (str '': '') @ String t) ErrUnsupportedType"

definition getJSONType :: "rtype \<Rightarrow> gjson_Type outcome" where
  "getJSONType t =
     (case Kind t of
        reflect_String \<Rightarrow> Return gjson_String
      | reflect_Bool \<Rightarrow> Return gjson_True
      | reflect_Int \<Rightarrow> Return gjson_Number
      | reflect_Int8 \<Rightarrow> Return gjson_Number
      | reflect_Int16 \<Rightarrow> Return gjson_Number
      | reflect_Int32 \<Rightarrow> Return gjson_Number
      | reflect_Int64 \<Rightarrow> Return gjson_Number
      | reflect_Uint \<Rightarrow> Return gjson_Number
      | reflect_Uint8 \<Rightarrow> Return gjson_Number
      | reflect_Uint16 \<Rightarrow> Return gjson_Number
      | reflect_Uint32 \<Rightarrow> Return gjson_Number
      | reflect_Uint64 \<Rightarrow> Return gjson_Number
      | reflect_Uintptr \<Rightarrow> Return gjson_Number
      | reflect_Float32 \<Rightarrow> Return gjson_Number
      | reflect_Float64 \<Rightarrow> Return gjson_Number
      | reflect_Complex64 \<Rightarrow> Return gjson_Number
      | reflect_Complex128 \<Rightarrow> Return gjson_Number
      | reflect_Map \<Rightarrow> Return gjson_JSON
      | reflect_Pointer \<Rightarrow> Return gjson_JSON
      | reflect_Slice \<Rightarrow> Return gjson_JSON
      | reflect_Struct \<Rightarrow> Return gjson_JSON
      | reflect_Array \<Rightarrow> Return gjson_JSON
      | reflect_Chan \<Rightarrow> Fail (unsupported t)
      | reflect_Func \<Rightarrow> Fail (unsupported t)
      | reflect_Interface \<Rightarrow> Fail (unsupported t)
      | reflect_UnsafePointer \<Rightarrow> Fail (unsupported t)
      | reflect_Invalid \<Rightarrow> Fail (unsupported t))"

text \<open>\<^verbatim>\<open>reflect.VisibleFields\<close> panics on a type that is not a struct.\<close>

definition VisibleFields :: "rtype \<Rightarrow> StructField list outcome" where
  "VisibleFields t =
     (if Kind t \<noteq> reflect_Struct then Panic ''reflect.VisibleFields of non-struct type''
      else Return (Fields t))"

lemma VisibleFields_size:
  "VisibleFields t = Return fs \<Longrightarrow> size_list size fs < size t"
  by (cases t) (simp add: VisibleFields_def split: if_splits)

text \<open>
  \<^verbatim>\<open>buildPathsForField\<close> writes into the map it is given; the model returns the map.
  \<open>buildPathsForField_range\<close> is its loop over the visible fields of a nested struct.
\<close>

function buildPathsForField :: "(rune \<Rightarrow> rune) \<Rightarrow> jsonPaths \<Rightarrow> gostring \<Rightarrow> rtype \<Rightarrow> jsonPaths outcome"
  and buildPathsForField_range :: "(rune \<Rightarrow> rune) \<Rightarrow> jsonPaths \<Rightarrow> gostring \<Rightarrow> StructField list \<Rightarrow> jsonPaths outcome"
where
  "buildPathsForField lowerCase paths cur t =
     (case getJSONType t of
        Fail err \<Rightarrow> Fail err
      | Panic msg \<Rightarrow> Panic msg
      | Return jsonType \<Rightarrow>
          if jsonType = gjson_True \<or> jsonType = gjson_False
          then Return (AList.update cur gjson_False (AList.update cur gjson_True paths))
          else if jsonType \<noteq> gjson_JSON
          then Return (AList.update cur jsonType paths)
          else if Kind t = reflect_Array \<or> Kind t = reflect_Slice \<or> Kind t = reflect_Map
          then Return (AList.update cur gjson_JSON paths)
          else (case VisibleFields t of
                  Fail err \<Rightarrow> Fail err
                | Panic msg \<Rightarrow> Panic msg
                | Return fs \<Rightarrow> buildPathsForField_range lowerCase paths cur fs))"
| "buildPathsForField_range lowerCase paths cur [] = Return paths"
| "buildPathsForField_range lowerCase paths cur (f # fs) =
     (if \<not> IsExported f then buildPathsForField_range lowerCase paths cur fs
      else let name = getJSONName f in
        if name = jsonIgnoreTag then buildPathsForField_range lowerCase paths cur fs
        else (case buildPathsForField lowerCase paths (appendToPath lowerCase cur name) (Type f) of
                Fail err \<Rightarrow> Fail err
              | Panic msg \<Rightarrow> Panic msg
              | Return paths' \<Rightarrow> buildPathsForField_range lowerCase paths' cur fs))"
  by pat_completeness auto

lemma StructField_Type_size: "2 * size (Type f) < Suc (Suc (Suc (2 * size f + n)))"
  by (cases f) simp

termination buildPathsForField
  by (relation "measure (case_sum (\<lambda>(lowerCase, paths, cur, t). 2 * size t)
                                  (\<lambda>(lowerCase, paths, cur, fs). 2 * size_list size fs + 1))")
     (auto dest: VisibleFields_size simp: StructField_Type_size)

text \<open>
  \<^verbatim>\<open>buildPathsForRoot\<close>; \<open>None\<close> is the nil \<^verbatim>\<open>reflect.Type\<close>, on which \<^verbatim>\<open>t.Kind()\<close>
  panics. \<open>buildPathsForRoot_range\<close> is its loop over the visible fields.
\<close>

fun buildPathsForRoot_range :: "(rune \<Rightarrow> rune) \<Rightarrow> jsonPaths \<Rightarrow> StructField list \<Rightarrow> jsonPaths outcome" where
  "buildPathsForRoot_range lowerCase paths [] = Return paths"
| "buildPathsForRoot_range lowerCase paths (f # fs) =
     (if \<not> IsExported f then buildPathsForRoot_range lowerCase paths fs
      else (case buildPathsForField lowerCase paths (appendToPath lowerCase [] (getJSONName f)) (Type f) of
              Fail err \<Rightarrow> Fail (fmt_Errorf (Name f @ (str '' :'') @ Error err) err)
            | Panic msg \<Rightarrow> Panic msg
            | Return paths' \<Rightarrow> buildPathsForRoot_range lowerCase paths' fs))"

fun buildPathsForRoot :: "(rune \<Rightarrow> rune) \<Rightarrow> rtype option \<Rightarrow> jsonPaths outcome" where
  "buildPathsForRoot lowerCase None = Panic ''runtime error: invalid memory address or nil pointer dereference''"
| "buildPathsForRoot lowerCase (Some t) =
     (if Kind t \<noteq> reflect_Struct then Fail (errors_New (str ''not a struct''))
      else (case VisibleFields t of
              Fail err \<Rightarrow> Fail err
            | Panic msg \<Rightarrow> Panic msg
            | Return fs \<Rightarrow> buildPathsForRoot_range lowerCase [] fs))"

text \<open>
  The route of the walker through a type, for stating what it meets: \<open>walked t\<close> lists
  the types on which \<^verbatim>\<open>buildPathsForField\<close> calls \<^verbatim>\<open>getJSONType\<close> when nothing stops
  it (the type itself, and below a struct the types of the exported fields that are not
  tagged to be ignored); \<open>walked_root\<close> does so for the loop of \<^verbatim>\<open>buildPathsForRoot\<close>,
  which skips unexported fields only. \<open>unsupportedKind\<close> holds of the kinds for which
  \<^verbatim>\<open>getJSONType\<close> returns \<^verbatim>\<open>ErrUnsupportedType\<close>.
\<close>

definition unsupportedKind :: "Kind \<Rightarrow> bool" where
  "unsupportedKind k =
     (k = reflect_Chan \<or> k = reflect_Func \<or> k = reflect_Interface
      \<or> k = reflect_UnsafePointer \<or> k = reflect_Invalid)"

fun walked :: "rtype \<Rightarrow> rtype list"
  and walked_fields :: "StructField list \<Rightarrow> rtype list"
where
  "walked (RType i k s fs) =
     RType i k s fs # (if k = reflect_Struct then walked_fields fs else [])"
| "walked_fields [] = []"
| "walked_fields (StructField n p tag t # fs) =
     (if IsExported (StructField n p tag t) \<and> getJSONName (StructField n p tag t) \<noteq> jsonIgnoreTag
      then walked t else []) @ walked_fields fs"

fun walked_root :: "StructField list \<Rightarrow> rtype list" where
  "walked_root [] = []"
| "walked_root (f # fs) = (if IsExported f then walked (Type f) else []) @ walked_root fs"

subsection \<open>Parameters and the environment\<close>

text \<open>
  A \<^verbatim>\<open>*candidate\<close> is an address and the struct behind it, whose one field \<^verbatim>\<open>typ\<close> is the type
  (\<open>c_typ\<close>; \<open>None\<close> for the nil type that \<^verbatim>\<open>reflect.TypeOf(nil)\<close> gives). \<^verbatim>\<open>Candidate\<close>
  allocates, so two calls give two addresses. A \<^verbatim>\<open>Parameter\<close> is a nil interface, one of
  the four types of the package, or a type of the caller that implements the interface
  (\<open>Parameter_other\<close>, with the name of that type).
\<close>

datatype candidate = candidate (addr: nat) (c_typ: "rtype option")

datatype Parameter =
  Parameter_nil
| Parameter_selector nat
| Parameter_candidate candidate
| Parameter_setting nat
| Parameter_fallback nat
| Parameter_other gostring

definition enableVerbose :: nat where
  "enableVerbose = 0"

record environment =
  env_selectors :: "nat list"
  env_candidates :: "candidate list"
  env_settings :: "(nat \<times> bool) list"
  env_fallback :: "nat option"

definition settings_Get :: "(nat \<times> bool) list \<Rightarrow> nat \<Rightarrow> bool" where
  "settings_Get s setting = (case map_of s setting of None \<Rightarrow> False | Some v \<Rightarrow> v)"

text \<open>
  \<^verbatim>\<open>newEnv\<close>: \<open>newEnv_range\<close> is the loop over the parameters. The logger chosen at the
  end writes diagnostics only and is left out.
\<close>

fun newEnv_range :: "environment \<Rightarrow> Parameter list \<Rightarrow> environment outcome" where
  "newEnv_range env [] = Return env"
| "newEnv_range env (p # params) =
     (case p of
        Parameter_nil \<Rightarrow> Fail (errors_New (str ''only one default type can be used at a time''))
      | Parameter_selector param \<Rightarrow>
          newEnv_range (env\<lparr>env_selectors := env_selectors env @ [param]\<rparr>) params
      | Parameter_candidate param \<Rightarrow>
          newEnv_range (env\<lparr>env_candidates := env_candidates env @ [param]\<rparr>) params
      | Parameter_setting param \<Rightarrow>
          newEnv_range (env\<lparr>env_settings := AList.update param True (env_settings env)\<rparr>) params
      | Parameter_fallback param \<Rightarrow>
          if env_fallback env \<noteq> None
          then Fail (errors_New (str ''only one default type can be used at a time''))
          else newEnv_range (env\<lparr>env_fallback := Some param\<rparr>) params
      | Parameter_other name \<Rightarrow>
          Fail (errors_New ((str ''invalid parameter type '') @ str [CHR 0x27] @ name @ str [CHR 0x27])))"

definition newEnv :: "Parameter list \<Rightarrow> environment outcome" where
  "newEnv params =
     (case newEnv_range \<lparr>env_selectors = [], env_candidates = [], env_settings = [],
                          env_fallback = None\<rparr> params of
        Fail err \<Rightarrow> Fail err
      | Panic msg \<Rightarrow> Panic msg
      | Return env \<Rightarrow>
          if length (env_candidates env) = 0
          then Fail (errors_New (str ''at least one candidate must be defined''))
          else Return env)"

subsection \<open>The fingerprint builder\<close>

text \<open>
  \<^verbatim>\<open>map[*candidate]jsonPaths\<close> is an association list too. The inner maps are shared
  by reference, so a \<^verbatim>\<open>delete\<close> on the map of a candidate is an update of the entry of
  that candidate (\<open>deletePath\<close>), seen by every later read (\<open>pathsOf\<close>).
\<close>

type_synonym candidatePaths = "(candidate \<times> jsonPaths) list"

definition pathsOf :: "candidatePaths \<Rightarrow> candidate \<Rightarrow> jsonPaths" where
  "pathsOf candidatePaths c = (case map_of candidatePaths c of None \<Rightarrow> [] | Some paths \<Rightarrow> paths)"

text \<open>The tag that the map of a candidate holds at a path, if any.\<close>

definition tagAt :: "candidatePaths \<Rightarrow> candidate \<Rightarrow> gostring \<Rightarrow> gjson_Type option" where
  "tagAt candidatePaths c path = map_of (pathsOf candidatePaths c) path"

text \<open>Every inner list is a map: no path occurs twice in it.\<close>

definition pathMaps :: "candidatePaths \<Rightarrow> bool" where
  "pathMaps candidatePaths = (\<forall>c. distinct (map fst (pathsOf candidatePaths c)))"

text \<open>No map holds the tag \<^verbatim>\<open>gjson.True\<close>.\<close>

definition noTrue :: "candidatePaths \<Rightarrow> bool" where
  "noTrue candidatePaths = (\<forall>(c, paths) \<in> set candidatePaths. gjson_True \<notin> snd ` set paths)"

definition deletePath :: "candidate \<Rightarrow> gostring \<Rightarrow> candidatePaths \<Rightarrow> candidatePaths" where
  "deletePath c path candidatePaths = AList.map_entry c (AList.delete path) candidatePaths"

text \<open>
  The four nested loops of \<^verbatim>\<open>makeUniquePaths\<close>, innermost first. Each loop runs over the
  entries its map has when the loop starts; an entry of \<^verbatim>\<open>pathsA\<close> that was deleted
  before the loop reached it is not produced, as Go specifies. The set of candidates
  itself never changes.
\<close>

fun makeUniquePaths_rangeB ::
  "candidate \<Rightarrow> gostring \<Rightarrow> gjson_Type \<Rightarrow> candidate \<Rightarrow> jsonPaths \<Rightarrow> candidatePaths \<Rightarrow> candidatePaths"
where
  "makeUniquePaths_rangeB candidateA pathA typeA candidateB [] candidatePaths = candidatePaths"
| "makeUniquePaths_rangeB candidateA pathA typeA candidateB ((pathB, typeB) # pathsB) candidatePaths =
     (if pathA = pathB \<and> typeA = typeB
      then deletePath candidateB pathB (deletePath candidateA pathA candidatePaths)
      else makeUniquePaths_rangeB candidateA pathA typeA candidateB pathsB candidatePaths)"

fun makeUniquePaths_candidatesB ::
  "candidate \<Rightarrow> gostring \<Rightarrow> gjson_Type \<Rightarrow> candidate list \<Rightarrow> candidatePaths \<Rightarrow> candidatePaths"
where
  "makeUniquePaths_candidatesB candidateA pathA typeA [] candidatePaths = candidatePaths"
| "makeUniquePaths_candidatesB candidateA pathA typeA (candidateB # rest) candidatePaths =
     (if c_typ candidateA = c_typ candidateB
      then makeUniquePaths_candidatesB candidateA pathA typeA rest candidatePaths
      else makeUniquePaths_candidatesB candidateA pathA typeA rest
             (makeUniquePaths_rangeB candidateA pathA typeA candidateB
                (pathsOf candidatePaths candidateB) candidatePaths))"

fun makeUniquePaths_rangeA :: "candidate \<Rightarrow> jsonPaths \<Rightarrow> candidatePaths \<Rightarrow> candidatePaths" where
  "makeUniquePaths_rangeA candidateA [] candidatePaths = candidatePaths"
| "makeUniquePaths_rangeA candidateA ((pathA, typeA) # pathsA) candidatePaths =
     (if map_of (pathsOf candidatePaths candidateA) pathA \<noteq> Some typeA
      then makeUniquePaths_rangeA candidateA pathsA candidatePaths
      else makeUniquePaths_rangeA candidateA pathsA
             (makeUniquePaths_candidatesB candidateA pathA typeA (map fst candidatePaths)
                candidatePaths))"

fun makeUniquePaths_candidatesA :: "candidate list \<Rightarrow> candidatePaths \<Rightarrow> candidatePaths" where
  "makeUniquePaths_candidatesA [] candidatePaths = candidatePaths"
| "makeUniquePaths_candidatesA (candidateA # rest) candidatePaths =
     makeUniquePaths_candidatesA rest
       (makeUniquePaths_rangeA candidateA (pathsOf candidatePaths candidateA) candidatePaths)"

definition makeUniquePaths :: "candidatePaths \<Rightarrow> candidatePaths" where
  "makeUniquePaths candidatePaths =
     makeUniquePaths_candidatesA (map fst candidatePaths) candidatePaths"

subsection \<open>The resolver\<close>

text \<open>
  The document parser is the library gjson. Of a parsed document the code reads the type
  tag of the root (\<^verbatim>\<open>res.Type\<close>) and the type tag found at a path
  (\<^verbatim>\<open>res.Get(path).Type\<close>, which is \<open>gjson_Null\<close> where the document has nothing);
  a \<open>Result\<close> is these two.
\<close>

record Result =
  Result_Type :: gjson_Type
  Result_Get :: "gostring \<Rightarrow> gjson_Type"

record traverseResolver =
  resolver_env :: environment
  resolver_paths :: candidatePaths

fun newTraverseResolver_range :: "(rune \<Rightarrow> rune) \<Rightarrow> candidatePaths \<Rightarrow> candidate list \<Rightarrow> candidatePaths outcome" where
  "newTraverseResolver_range lowerCase candidatePaths [] = Return candidatePaths"
| "newTraverseResolver_range lowerCase candidatePaths (c # cs) =
     (case buildPathsForRoot lowerCase (c_typ c) of
        Fail err \<Rightarrow>
          Fail (fmt_Errorf ((case c_typ c of None \<Rightarrow> (str ''%!s(<nil>)'') | Some t \<Rightarrow> String t)
                             @ (str '': '') @ Error err) err)
      | Panic msg \<Rightarrow> Panic msg
      | Return paths \<Rightarrow> newTraverseResolver_range lowerCase (AList.update c paths candidatePaths) cs)"

definition newTraverseResolver :: "(rune \<Rightarrow> rune) \<Rightarrow> environment \<Rightarrow> traverseResolver outcome" where
  "newTraverseResolver lowerCase env =
     (case newTraverseResolver_range lowerCase [] (env_candidates env) of
        Fail err \<Rightarrow> Fail err
      | Panic msg \<Rightarrow> Panic msg
      | Return candidatePaths \<Rightarrow>
          Return \<lparr>resolver_env = env, resolver_paths = makeUniquePaths candidatePaths\<rparr>)"

text \<open>
  \<^verbatim>\<open>ResolveJSON\<close> returns a type and an error; \<open>None\<close> is nil for both.
  \<open>ResolveJSON_paths\<close> is the inner loop and tells whether it returned.
\<close>

fun ResolveJSON_paths :: "Result \<Rightarrow> jsonPaths \<Rightarrow> bool" where
  "ResolveJSON_paths res [] = False"
| "ResolveJSON_paths res ((path, typ') # paths) =
     (if Result_Get res path = typ' then True else ResolveJSON_paths res paths)"

fun ResolveJSON_range :: "candidatePaths \<Rightarrow> Result \<Rightarrow> rtype option \<times> error option" where
  "ResolveJSON_range [] res = (None, None)"
| "ResolveJSON_range ((c, paths) # rest) res =
     (if ResolveJSON_paths res paths then (c_typ c, None) else ResolveJSON_range rest res)"

definition ResolveJSON :: "traverseResolver \<Rightarrow> Result \<Rightarrow> rtype option \<times> error option" where
  "ResolveJSON r res = ResolveJSON_range (resolver_paths r) res"

subsection \<open>The unmarshaler\<close>

text \<open>
  The \<^verbatim>\<open>resolver\<close> field is an interface: a method, or nil in an \<^verbatim>\<open>Unmarshaler\<close> that
  \<^verbatim>\<open>New\<close> did not make. \<^verbatim>\<open>UnmarshalJSON\<close> takes the two library calls it makes as
  arguments: \<open>ParseBytes\<close> for \<^verbatim>\<open>gjson.ParseBytes\<close>, and \<open>json_Unmarshal\<close> for
  \<^verbatim>\<open>json.Unmarshal\<close> into a new value of the resolved type, which returns the filled
  value or fails.
\<close>

record Unmarshaler =
  resolver :: "(Result \<Rightarrow> rtype option \<times> error option) option"

definition New :: "(rune \<Rightarrow> rune) \<Rightarrow> Parameter list \<Rightarrow> Unmarshaler outcome" where
  "New lowerCase params =
     (case newEnv params of
        Fail err \<Rightarrow> Fail (fmt_Errorf ((str ''invalid parameters: '') @ Error err) err)
      | Panic msg \<Rightarrow> Panic msg
      | Return env \<Rightarrow>
          (case newTraverseResolver lowerCase env of
             Fail err \<Rightarrow> Fail (fmt_Errorf ((str ''resolver: '') @ Error err) err)
           | Panic msg \<Rightarrow> Panic msg
           | Return r \<Rightarrow> Return \<lparr>resolver = Some (ResolveJSON r)\<rparr>))"

definition UnmarshalJSON ::
  "(string \<Rightarrow> Result) \<Rightarrow> (string \<Rightarrow> rtype \<Rightarrow> 'v outcome) \<Rightarrow> Unmarshaler \<Rightarrow> string \<Rightarrow> 'v outcome"
where
  "UnmarshalJSON ParseBytes json_Unmarshal u b =
     (let res = ParseBytes b in
      if Result_Type res \<noteq> gjson_JSON then Fail (errors_New (str ''invalid json: not an object''))
      else (case resolver u of
              None \<Rightarrow> Panic ''runtime error: invalid memory address or nil pointer dereference''
            | Some resolve \<Rightarrow>
                (case resolve res of
                   (t, Some err) \<Rightarrow> Fail (fmt_Errorf ((str ''resolve: '') @ Error err) err)
                 | (None, None) \<Rightarrow> Fail ErrNoMatch
                 | (Some t, None) \<Rightarrow>
                     (case json_Unmarshal b t of
                        Fail err \<Rightarrow> Fail (fmt_Errorf ((str ''unmarshall: '') @ Error err) err)
                      | Panic msg \<Rightarrow> Panic msg
                      | Return v \<Rightarrow> Return v))))"

subsection \<open>The program of \<^verbatim>\<open>cmd/main.go\<close> and other inputs\<close>

text \<open>
  \<^verbatim>\<open>main\<close> registers two structs, \<^verbatim>\<open>s1\<close> with an unexported field of function type,
  and decodes the document \<^verbatim>\<open>{"foo": "s1", "shared": 1}\<close>.
\<close>

definition t_string :: rtype where
  "t_string = RType 1 reflect_String (str ''string'') []"

definition t_int :: rtype where
  "t_int = RType 2 reflect_Int (str ''int'') []"

definition t_bool :: rtype where
  "t_bool = RType 3 reflect_Bool (str ''bool'') []"

definition t_func :: rtype where
  "t_func = RType 4 reflect_Func (str ''func() bool'') []"

definition t_ptr :: rtype where
  "t_ptr = RType 5 reflect_Pointer (str ''*int'') []"

definition main_s1 :: rtype where
  "main_s1 = RType 10 reflect_Struct (str ''main.s1'')
     [StructField (str ''Foo'') [] [] t_string,
      StructField (str ''Shared'') [] [] t_int,
      StructField (str ''private'') (str ''main'') [] t_func]"

definition main_s2 :: rtype where
  "main_s2 = RType 11 reflect_Struct (str ''main.s2'')
     [StructField (str ''Bar'') [] [] t_string,
      StructField (str ''Shared'') [] [] t_int]"

definition main_params :: "Parameter list" where
  "main_params =
     [Parameter_candidate (candidate 0 (Some main_s1)),
      Parameter_candidate (candidate 1 (Some main_s2)),
      Parameter_setting enableVerbose]"

definition main_env :: environment where
  "main_env = \<lparr>env_selectors = [],
               env_candidates = [candidate 0 (Some main_s1), candidate 1 (Some main_s2)],
               env_settings = [(enableVerbose, True)], env_fallback = None\<rparr>"

definition main_resolver :: traverseResolver where
  "main_resolver = \<lparr>resolver_env = main_env,
     resolver_paths = [(candidate 0 (Some main_s1), [((str ''foo''), gjson_String)]),
                       (candidate 1 (Some main_s2), [((str ''bar''), gjson_String)])]\<rparr>"

text \<open>A document with an object at the root, given by the tags it has at its paths.\<close>

definition document :: "(gostring \<times> gjson_Type) list \<Rightarrow> Result" where
  "document tags =
     \<lparr>Result_Type = gjson_JSON,
      Result_Get = (\<lambda>path. case map_of tags path of None \<Rightarrow> gjson_Null | Some t \<Rightarrow> t)\<rparr>"

definition main_document :: Result where
  "main_document = document [((str ''foo''), gjson_String), ((str ''shared''), gjson_Number)]"

text \<open>
  Further candidates: \<^verbatim>\<open>struct { Flag bool }\<close>; a struct with a field tagged
  \<^verbatim>\<open>json:"-"\<close> at the top level and one inside a nested struct; a struct whose nested
  struct is itself tagged \<^verbatim>\<open>json:"-"\<close>; a struct with a field that points to a struct;
  a struct with an exported field of function type; one with a pointer before it;
  and one with a pointer after it.
\<close>

definition flagged :: rtype where
  "flagged = RType 12 reflect_Struct (str ''main.flagged'') [StructField (str ''Flag'') [] [] t_bool]"

definition secret :: rtype where
  "secret = RType 13 reflect_Struct (str ''main.secret'')
     [StructField (str ''Secret'') [] (str ''-'') t_string,
      StructField (str ''Meta'') [] []
        (RType 14 reflect_Struct (str ''main.meta'')
           [StructField (str ''Hidden'') [] (str ''-'') t_string,
            StructField (str ''Kept'') [] [] t_int])]"

definition wrapped :: rtype where
  "wrapped = RType 15 reflect_Struct (str ''main.wrapped'')
     [StructField (str ''Inner'') [] (str ''-'')
        (RType 16 reflect_Struct (str ''main.inner'') [StructField (str ''X'') [] [] t_int])]"

definition linked :: rtype where
  "linked = RType 17 reflect_Struct (str ''main.linked'')
     [StructField (str ''Next'') [] [] (RType 18 reflect_Pointer (str ''*main.inner'') [])]"

definition handler :: rtype where
  "handler = RType 19 reflect_Struct (str ''main.handler'') [StructField (str ''F'') [] [] t_func]"

definition counted :: rtype where
  "counted = RType 20 reflect_Struct (str ''main.counted'')
     [StructField (str ''P'') [] [] t_ptr, StructField (str ''F'') [] [] t_func]"

definition guarded :: rtype where
  "guarded = RType 21 reflect_Struct (str ''main.guarded'')
     [StructField (str ''F'') [] [] t_func, StructField (str ''P'') [] [] t_ptr]"

definition flagged_resolver :: traverseResolver where
  "flagged_resolver =
     \<lparr>resolver_env = \<lparr>env_selectors = [], env_candidates = [candidate 0 (Some flagged)],
                       env_settings = [], env_fallback = None\<rparr>,
      resolver_paths = [(candidate 0 (Some flagged), [((str ''flag''), gjson_False)])]\<rparr>"

text \<open>
  Two structs with the same single field, \<^verbatim>\<open>type twice struct { Shared int }\<close> and
  \<^verbatim>\<open>type once struct { Shared int }\<close>, registered by
  \<^verbatim>\<open>New(Candidate(twice{}), Candidate(twice{}), Candidate(once{}))\<close>; and the resolver
  built when every \<^verbatim>\<open>range\<close> produces the candidates in the order of registration.
\<close>

definition twice :: rtype where
  "twice = RType 22 reflect_Struct (str ''main.twice'') [StructField (str ''Shared'') [] [] t_int]"

definition once :: rtype where
  "once = RType 23 reflect_Struct (str ''main.once'') [StructField (str ''Shared'') [] [] t_int]"

definition twice_params :: "Parameter list" where
  "twice_params =
     [Parameter_candidate (candidate 0 (Some twice)),
      Parameter_candidate (candidate 1 (Some twice)),
      Parameter_candidate (candidate 2 (Some once))]"

definition twice_env :: environment where
  "twice_env = \<lparr>env_selectors = [],
                env_candidates = [candidate 0 (Some twice), candidate 1 (Some twice),
                                  candidate 2 (Some once)],
                env_settings = [], env_fallback = None\<rparr>"

definition twice_resolver :: traverseResolver where
  "twice_resolver = \<lparr>resolver_env = twice_env,
     resolver_paths =
       [(candidate 0 (Some twice), []),
        (candidate 1 (Some twice), [(str ''shared'', gjson_Number)]),
        (candidate 2 (Some once), [])]\<rparr>"

section \<open>Properties\<close>

subsection \<open>String literals\<close>

lemma str_append [simp]: "str a @ str b = str (a @ b)" "str a @ str b @ s = str (a @ b) @ s"
  by (simp_all add: str_def)

lemma str_eq_iff [simp]: "str a = str b \<longleftrightarrow> a = b"
  by (simp add: str_def inj_map_eq_map [OF inj_of_char])

lemma str_Nil [simp]: "str [] = []" "str a = [] \<longleftrightarrow> a = []" "[] = str a \<longleftrightarrow> a = []"
  by (auto simp: str_def)

subsection \<open>Names\<close>

lemma separators_runes: "r \<in> set (str '' _-'') \<longleftrightarrow> r = 32 \<or> r = 95 \<or> r = 45"
  by (auto simp: str_def)

lemma unicode_ToLower_ascii:
  "r \<le> 127 \<Longrightarrow> unicode_ToLower lowerCase (unicode_ToLower lowerCase r) = unicode_ToLower lowerCase r"
  by (simp add: unicode_ToLower_def)

lemma unicode_ToLower_separator:
  "r \<in> set (str '' _-'') \<Longrightarrow> unicode_ToLower lowerCase r = r"
  by (auto simp: separators_runes unicode_ToLower_def)

lemma normalizeName_filter:
  "normalizeName lowerCase name
     = filter (\<lambda>r. r \<notin> set (str '' _-'')) (map (unicode_ToLower lowerCase) name)"
proof -
  have "(\<lambda>x. 45 \<noteq> x \<and> 32 \<noteq> x \<and> 95 \<noteq> x) = (\<lambda>r::nat. r \<notin> set (str '' _-''))"
    by (auto simp: separators_runes)
  then show ?thesis
    by (simp add: normalizeName_def strings_ToLower_def str_def removeAll_filter_not_eq conj_commute)
qed

lemma normalizeName_stable:
  assumes "\<forall>r \<in> set name. unicode_ToLower lowerCase (unicode_ToLower lowerCase r)
             = unicode_ToLower lowerCase r"
  shows "normalizeName lowerCase (normalizeName lowerCase name) = normalizeName lowerCase name"
    and "\<forall>r \<in> set (normalizeName lowerCase name). unicode_ToLower lowerCase r = r"
proof -
  show fixed: "\<forall>r \<in> set (normalizeName lowerCase name). unicode_ToLower lowerCase r = r"
    using assms by (auto simp: normalizeName_filter)
  then have "map (unicode_ToLower lowerCase) (normalizeName lowerCase name)
      = normalizeName lowerCase name"
    by (simp add: map_idI)
  then show "normalizeName lowerCase (normalizeName lowerCase name) = normalizeName lowerCase name"
    by (simp add: normalizeName_filter [of lowerCase "normalizeName lowerCase name"])
       (simp add: normalizeName_filter)
qed

lemma normalizeName_fixed:
  assumes "\<forall>r \<in> set name. unicode_ToLower lowerCase r = r \<and> r \<notin> set (str '' _-'')"
  shows "normalizeName lowerCase name = name"
proof -
  from assms have "map (unicode_ToLower lowerCase) name = name"
    by (simp add: map_idI)
  with assms show ?thesis
    by (simp add: normalizeName_filter)
qed

text \<open>
  C8. Normalising a field name is idempotent, and it is insensitive to case and to the
  separators. For every lower-case table and every name:
  normalising the normalised name changes nothing, and every rune of the normalised name is
  lower case (a fixed point of \<^verbatim>\<open>unicode.ToLower\<close>), when \<^verbatim>\<open>unicode.ToLower\<close> is idempotent
  on the runes of the name; for a name of ASCII runes that holds of every table, and no
  letter \<^verbatim>\<open>A\<close> to \<^verbatim>\<open>Z\<close> is left;
  no space, underscore or hyphen is left;
  a name of lower-case runes without separators is its own normal form, so nothing else is
  removed or changed;
  inserting a space, an underscore or a hyphen anywhere in a name does not change the normal
  form; replacing a rune anywhere in a name by its lower case does not change it either
  (for \<^verbatim>\<open>A\<close> to \<^verbatim>\<open>Z\<close> that is the rune 32 further);
  \<^verbatim>\<open>Foo Bar\<close>, \<^verbatim>\<open>foo_bar\<close> and \<^verbatim>\<open>foo-bar\<close> give the segment \<^verbatim>\<open>foobar\<close>, and the same path
  when appended to any path.
\<close>

theorem normalizeName_idempotent_insensitive:
  "((\<forall>r \<in> set name. unicode_ToLower lowerCase (unicode_ToLower lowerCase r)
                       = unicode_ToLower lowerCase r) \<longrightarrow>
      normalizeName lowerCase (normalizeName lowerCase name) = normalizeName lowerCase name
      \<and> (\<forall>r \<in> set (normalizeName lowerCase name). unicode_ToLower lowerCase r = r))
   \<and> ((\<forall>r \<in> set name. r \<le> 127) \<longrightarrow>
      normalizeName lowerCase (normalizeName lowerCase name) = normalizeName lowerCase name
      \<and> (\<forall>r \<in> set (normalizeName lowerCase name). \<not> (65 \<le> r \<and> r \<le> 90)))
   \<and> (\<forall>r \<in> set (normalizeName lowerCase name). r \<notin> set (str '' _-''))
   \<and> ((\<forall>r \<in> set name. unicode_ToLower lowerCase r = r \<and> r \<notin> set (str '' _-'')) \<longrightarrow>
      normalizeName lowerCase name = name)
   \<and> (c \<in> set (str '' _-'') \<longrightarrow>
      normalizeName lowerCase (a @ c # b) = normalizeName lowerCase (a @ b))
   \<and> (unicode_ToLower lowerCase (unicode_ToLower lowerCase r) = unicode_ToLower lowerCase r \<longrightarrow>
      normalizeName lowerCase (a @ r # b)
        = normalizeName lowerCase (a @ unicode_ToLower lowerCase r # b))
   \<and> (65 \<le> r \<and> r \<le> 90 \<longrightarrow>
      normalizeName lowerCase (a @ r # b) = normalizeName lowerCase (a @ (r + 32) # b))
   \<and> normalizeName lowerCase (str ''Foo Bar'') = str ''foobar''
   \<and> normalizeName lowerCase (str ''foo_bar'') = str ''foobar''
   \<and> normalizeName lowerCase (str ''foo-bar'') = str ''foobar''
   \<and> appendToPath lowerCase path (str ''Foo Bar'') = appendToPath lowerCase path (str ''foo_bar'')
   \<and> appendToPath lowerCase path (str ''foo_bar'') = appendToPath lowerCase path (str ''foo-bar'')"
proof (intro conjI impI)
  assume stable: "\<forall>r \<in> set name. unicode_ToLower lowerCase (unicode_ToLower lowerCase r)
                       = unicode_ToLower lowerCase r"
  show "normalizeName lowerCase (normalizeName lowerCase name) = normalizeName lowerCase name"
    using stable by (rule normalizeName_stable(1))
  show "\<forall>r \<in> set (normalizeName lowerCase name). unicode_ToLower lowerCase r = r"
    using stable by (rule normalizeName_stable(2))
next
  assume ascii: "\<forall>r \<in> set name. r \<le> 127"
  then have stable: "\<forall>r \<in> set name. unicode_ToLower lowerCase (unicode_ToLower lowerCase r)
                       = unicode_ToLower lowerCase r"
    by (simp add: unicode_ToLower_ascii)
  then show "normalizeName lowerCase (normalizeName lowerCase name) = normalizeName lowerCase name"
    by (rule normalizeName_stable(1))
  show "\<forall>r \<in> set (normalizeName lowerCase name). \<not> (65 \<le> r \<and> r \<le> 90)"
    using ascii by (auto simp: normalizeName_filter unicode_ToLower_def split: if_splits)
next
  show "\<forall>r \<in> set (normalizeName lowerCase name). r \<notin> set (str '' _-'')"
    by (simp add: normalizeName_filter)
next
  assume "\<forall>r \<in> set name. unicode_ToLower lowerCase r = r \<and> r \<notin> set (str '' _-'')"
  then show "normalizeName lowerCase name = name"
    by (rule normalizeName_fixed)
next
  assume "c \<in> set (str '' _-'')"
  then show "normalizeName lowerCase (a @ c # b) = normalizeName lowerCase (a @ b)"
    by (simp add: normalizeName_filter unicode_ToLower_separator)
next
  assume "unicode_ToLower lowerCase (unicode_ToLower lowerCase r) = unicode_ToLower lowerCase r"
  then show "normalizeName lowerCase (a @ r # b)
        = normalizeName lowerCase (a @ unicode_ToLower lowerCase r # b)"
    by (simp add: normalizeName_filter)
next
  assume "65 \<le> r \<and> r \<le> 90"
  then show "normalizeName lowerCase (a @ r # b) = normalizeName lowerCase (a @ (r + 32) # b)"
    by (simp add: normalizeName_filter unicode_ToLower_def)
next
  show n1: "normalizeName lowerCase (str ''Foo Bar'') = str ''foobar''"
    by code_simp
  show n2: "normalizeName lowerCase (str ''foo_bar'') = str ''foobar''"
    by code_simp
  show n3: "normalizeName lowerCase (str ''foo-bar'') = str ''foobar''"
    by code_simp
  show "appendToPath lowerCase path (str ''Foo Bar'') = appendToPath lowerCase path (str ''foo_bar'')"
    by (simp add: appendToPath_def n1 n2)
  show "appendToPath lowerCase path (str ''foo_bar'') = appendToPath lowerCase path (str ''foo-bar'')"
    by (simp add: appendToPath_def n2 n3)
qed

text \<open>
  A name outside ASCII: rune 201 (capital E with acute accent), then \<^verbatim>\<open>CO_LE\<close>; the
  table sends 201 to 233 (small e with acute accent).
\<close>

theorem normalizeName_idempotent_insensitive_witness:
  "normalizeName lowerCase_Latin1
      (normalizeName lowerCase_Latin1 [201, 67, 79, 95, 76, 69])
     = normalizeName lowerCase_Latin1 [201, 67, 79, 95, 76, 69]
   \<and> normalizeName lowerCase_Latin1 [201, 67, 79, 95, 76, 69]
     = 233 # str ''cole''
   \<and> normalizeName lowerCase_Latin1 (233 # str ''cole'') = 233 # str ''cole''
   \<and> normalizeName lowerCase_Latin1 ([201, 67, 79] @ 95 # [76, 69])
     = normalizeName lowerCase_Latin1 ([201, 67, 79] @ [76, 69])
   \<and> normalizeName lowerCase_Latin1 ([] @ 201 # [67, 79, 95, 76, 69])
     = normalizeName lowerCase_Latin1 ([] @ 233 # [67, 79, 95, 76, 69])
   \<and> normalizeName lowerCase_Latin1 ([201] @ 67 # [79, 95, 76, 69])
     = normalizeName lowerCase_Latin1 ([201] @ 99 # [79, 95, 76, 69])
   \<and> normalizeName lowerCase_Latin1
        (normalizeName lowerCase_Latin1 (str ''Foo_Bar''))
     = normalizeName lowerCase_Latin1 (str ''Foo_Bar'')"
proof -
  let ?lc = lowerCase_Latin1
  note ecole = normalizeName_idempotent_insensitive
    [where lowerCase = ?lc and name = "[201, 67, 79, 95, 76, 69]"
       and c = 95 and a = "[201, 67, 79]" and b = "[76, 69]" and r = 201]
  note lower = normalizeName_idempotent_insensitive
    [where lowerCase = ?lc and name = "233 # str ''cole''"
       and c = 95 and a = "[]" and b = "[67, 79, 95, 76, 69]" and r = 201]
  note ascii = normalizeName_idempotent_insensitive
    [where lowerCase = ?lc and name = "str ''Foo_Bar''"
       and c = 95 and a = "[201]" and b = "[79, 95, 76, 69]" and r = 67]
  have stable: "\<forall>r \<in> set [201, 67, 79, 95, 76, 69].
      unicode_ToLower ?lc (unicode_ToLower ?lc r) = unicode_ToLower ?lc r"
    by (simp add: unicode_ToLower_def lowerCase_Latin1_def)
  have fixed: "\<forall>r \<in> set (233 # str ''cole'').
      unicode_ToLower ?lc r = r \<and> r \<notin> set (str '' _-'')"
    by (simp add: unicode_ToLower_def lowerCase_Latin1_def str_def)
  have sep: "(95::rune) \<in> set (str '' _-'')"
    by (simp add: str_def)
  have table: "unicode_ToLower ?lc (unicode_ToLower ?lc 201) = unicode_ToLower ?lc 201"
      "unicode_ToLower ?lc 201 = 233"
    by (simp_all add: unicode_ToLower_def lowerCase_Latin1_def)
  have seven: "\<forall>r \<in> set (str ''Foo_Bar''). r \<le> 127"
    by (simp add: str_def)
  from ecole stable
  have "normalizeName ?lc (normalizeName ?lc [201, 67, 79, 95, 76, 69])
      = normalizeName ?lc [201, 67, 79, 95, 76, 69]"
    by blast
  moreover have "normalizeName ?lc [201, 67, 79, 95, 76, 69] = 233 # str ''cole''"
    by code_simp
  moreover from lower fixed
  have "normalizeName ?lc (233 # str ''cole'') = 233 # str ''cole''"
    by blast
  moreover from ecole sep
  have "normalizeName ?lc ([201, 67, 79] @ 95 # [76, 69])
      = normalizeName ?lc ([201, 67, 79] @ [76, 69])"
    by blast
  moreover from lower table(1)
  have "normalizeName ?lc ([] @ 201 # [67, 79, 95, 76, 69])
      = normalizeName ?lc ([] @ unicode_ToLower ?lc 201 # [67, 79, 95, 76, 69])"
    by blast
  moreover from ascii
  have "normalizeName ?lc ([201] @ 67 # [79, 95, 76, 69])
      = normalizeName ?lc ([201] @ (67 + 32) # [79, 95, 76, 69])"
    by simp
  moreover from ascii seven
  have "normalizeName ?lc (normalizeName ?lc (str ''Foo_Bar''))
      = normalizeName ?lc (str ''Foo_Bar'')"
    by blast
  ultimately show ?thesis
    by (simp add: table(2))
qed

subsection \<open>The program of \<^verbatim>\<open>cmd/main.go\<close>\<close>

lemma main_newEnv: "newEnv main_params = Return main_env"
  by code_simp

lemma main_newTraverseResolver: "newTraverseResolver lowerCase main_env = Return main_resolver"
  by code_simp

lemma main_New: "New lowerCase main_params = Return \<lparr>resolver = Some (ResolveJSON main_resolver)\<rparr>"
  by (simp add: New_def main_newEnv main_newTraverseResolver)

subsection \<open>The shape walker\<close>

lemma walked_unfold:
  "walked t = t # (if Kind t = reflect_Struct then walked_fields (Fields t) else [])"
  by (cases t) simp

lemma walked_fields_Cons:
  "walked_fields (f # fs) =
     (if IsExported f \<and> getJSONName f \<noteq> jsonIgnoreTag then walked (Type f) else [])
     @ walked_fields fs"
  by (cases f) simp

declare buildPathsForField.simps [simp del]

lemma buildPathsForField_struct:
  "Kind t = reflect_Struct \<Longrightarrow>
   buildPathsForField lowerCase paths cur t = buildPathsForField_range lowerCase paths cur (Fields t)"
  by (simp add: buildPathsForField.simps getJSONType_def VisibleFields_def)

lemma buildPathsForField_not_struct:
  "Kind t \<noteq> reflect_Struct \<Longrightarrow>
   buildPathsForField lowerCase paths cur t =
     (if unsupportedKind (Kind t) then Fail (unsupported t)
      else if Kind t = reflect_Pointer then Panic ''reflect.VisibleFields of non-struct type''
      else if Kind t = reflect_Bool
      then Return (AList.update cur gjson_False (AList.update cur gjson_True paths))
      else Return (AList.update cur (case getJSONType t of Return j \<Rightarrow> j) paths))"
  by (cases "Kind t")
     (simp_all add: buildPathsForField.simps getJSONType_def VisibleFields_def unsupportedKind_def)

lemma walk_outcome:
  "(\<forall>e. buildPathsForField lowerCase paths cur t = Fail e \<longrightarrow>
       (\<exists>u \<in> set (walked t). unsupportedKind (Kind u) \<and> e = unsupported u))
   \<and> (\<forall>m. buildPathsForField lowerCase paths cur t = Panic m \<longrightarrow>
       (\<exists>u \<in> set (walked t). Kind u = reflect_Pointer))
   \<and> (\<forall>p'. buildPathsForField lowerCase paths cur t = Return p' \<longrightarrow>
       (\<forall>u \<in> set (walked t). \<not> unsupportedKind (Kind u) \<and> Kind u \<noteq> reflect_Pointer))"
  "(\<forall>e. buildPathsForField_range lowerCase paths cur fs = Fail e \<longrightarrow>
       (\<exists>u \<in> set (walked_fields fs). unsupportedKind (Kind u) \<and> e = unsupported u))
   \<and> (\<forall>m. buildPathsForField_range lowerCase paths cur fs = Panic m \<longrightarrow>
       (\<exists>u \<in> set (walked_fields fs). Kind u = reflect_Pointer))
   \<and> (\<forall>p'. buildPathsForField_range lowerCase paths cur fs = Return p' \<longrightarrow>
       (\<forall>u \<in> set (walked_fields fs). \<not> unsupportedKind (Kind u) \<and> Kind u \<noteq> reflect_Pointer))"
proof (induction lowerCase paths cur t and lowerCase paths cur fs rule: buildPathsForField_buildPathsForField_range.induct)
  case (1 lowerCase paths cur t)
  show ?case
  proof (cases "Kind t = reflect_Struct")
    case True
    then have "VisibleFields t = Return (Fields t)" "getJSONType t = Return gjson_JSON"
      by (simp_all add: VisibleFields_def getJSONType_def)
    with True have IH: "(\<forall>e. buildPathsForField_range lowerCase paths cur (Fields t) = Fail e \<longrightarrow>
       (\<exists>u \<in> set (walked_fields (Fields t)). unsupportedKind (Kind u) \<and> e = unsupported u))
   \<and> (\<forall>m. buildPathsForField_range lowerCase paths cur (Fields t) = Panic m \<longrightarrow>
       (\<exists>u \<in> set (walked_fields (Fields t)). Kind u = reflect_Pointer))
   \<and> (\<forall>p'. buildPathsForField_range lowerCase paths cur (Fields t) = Return p' \<longrightarrow>
       (\<forall>u \<in> set (walked_fields (Fields t)). \<not> unsupportedKind (Kind u) \<and> Kind u \<noteq> reflect_Pointer))"
      using "1.IH" [of gjson_JSON "Fields t"] by simp
    from True have "walked t = t # walked_fields (Fields t)"
      by (simp add: walked_unfold)
    with True IH show ?thesis
      by (simp add: buildPathsForField_struct unsupportedKind_def)
  next
    case False
    then have "walked t = [t]"
      by (simp add: walked_unfold)
    with False show ?thesis
      by (simp add: buildPathsForField_not_struct)
  qed
next
  case (2 lowerCase paths cur)
  show ?case by simp
next
  case (3 lowerCase paths cur f fs)
  show ?case
  proof (cases "IsExported f \<and> getJSONName f \<noteq> jsonIgnoreTag")
    case False
    then have skip: "buildPathsForField_range lowerCase paths cur (f # fs) = buildPathsForField_range lowerCase paths cur fs"
      "walked_fields (f # fs) = walked_fields fs"
      by (auto simp: walked_fields_Cons)
    from False "3.IH"(1,2) show ?thesis
      unfolding skip by blast
  next
    case True
    let ?r = "buildPathsForField lowerCase paths (appendToPath lowerCase cur (getJSONName f)) (Type f)"
    from True have field:
      "(\<forall>e. ?r = Fail e \<longrightarrow> (\<exists>u \<in> set (walked (Type f)). unsupportedKind (Kind u) \<and> e = unsupported u))
       \<and> (\<forall>m. ?r = Panic m \<longrightarrow> (\<exists>u \<in> set (walked (Type f)). Kind u = reflect_Pointer))
       \<and> (\<forall>p'. ?r = Return p' \<longrightarrow>
            (\<forall>u \<in> set (walked (Type f)). \<not> unsupportedKind (Kind u) \<and> Kind u \<noteq> reflect_Pointer))"
      using "3.IH"(3) by simp
    from True have w: "walked_fields (f # fs) = walked (Type f) @ walked_fields fs"
      by (simp add: walked_fields_Cons)
    show ?thesis
    proof (cases ?r)
      case (Return p')
      with True have "buildPathsForField_range lowerCase paths cur (f # fs) = buildPathsForField_range lowerCase p' cur fs"
        by simp
      moreover from True Return have
        "(\<forall>e. buildPathsForField_range lowerCase p' cur fs = Fail e \<longrightarrow>
            (\<exists>u \<in> set (walked_fields fs). unsupportedKind (Kind u) \<and> e = unsupported u))
         \<and> (\<forall>m. buildPathsForField_range lowerCase p' cur fs = Panic m \<longrightarrow>
            (\<exists>u \<in> set (walked_fields fs). Kind u = reflect_Pointer))
         \<and> (\<forall>q. buildPathsForField_range lowerCase p' cur fs = Return q \<longrightarrow>
            (\<forall>u \<in> set (walked_fields fs). \<not> unsupportedKind (Kind u) \<and> Kind u \<noteq> reflect_Pointer))"
        using "3.IH"(4) [of "getJSONName f" p'] by simp
      moreover from field Return have
        "\<forall>u \<in> set (walked (Type f)). \<not> unsupportedKind (Kind u) \<and> Kind u \<noteq> reflect_Pointer"
        by simp
      ultimately show ?thesis
        unfolding w by auto
    next
      case (Fail e)
      with True have "buildPathsForField_range lowerCase paths cur (f # fs) = Fail e"
        by simp
      with field Fail show ?thesis
        unfolding w by auto
    next
      case (Panic m)
      with True have "buildPathsForField_range lowerCase paths cur (f # fs) = Panic m"
        by simp
      with field Panic show ?thesis
        unfolding w by auto
    qed
  qed
qed

lemma root_walk_outcome:
  "(\<forall>e. buildPathsForRoot_range lowerCase paths fs = Fail e \<longrightarrow>
       (\<exists>f \<in> set fs. \<exists>u \<in> set (walked (Type f)). IsExported f \<and> unsupportedKind (Kind u)
          \<and> e = fmt_Errorf (Name f @ (str '' :'') @ Error (unsupported u)) (unsupported u)))
   \<and> (\<forall>m. buildPathsForRoot_range lowerCase paths fs = Panic m \<longrightarrow>
       (\<exists>u \<in> set (walked_root fs). Kind u = reflect_Pointer))
   \<and> (\<forall>p'. buildPathsForRoot_range lowerCase paths fs = Return p' \<longrightarrow>
       (\<forall>u \<in> set (walked_root fs). \<not> unsupportedKind (Kind u) \<and> Kind u \<noteq> reflect_Pointer))"
proof (induction fs arbitrary: paths)
  case Nil
  show ?case by simp
next
  case (Cons f fs)
  show ?case
  proof (cases "IsExported f")
    case False
    with Cons.IH [of paths] show ?thesis by simp
  next
    case True
    let ?r = "buildPathsForField lowerCase paths (appendToPath lowerCase [] (getJSONName f)) (Type f)"
    note field = walk_outcome(1) [of lowerCase paths "appendToPath lowerCase [] (getJSONName f)" "Type f"]
    show ?thesis
    proof (cases ?r)
      case (Return p')
      with True have "buildPathsForRoot_range lowerCase paths (f # fs) = buildPathsForRoot_range lowerCase p' fs"
        by simp
      moreover from field Return have
        "\<forall>u \<in> set (walked (Type f)). \<not> unsupportedKind (Kind u) \<and> Kind u \<noteq> reflect_Pointer"
        by simp
      ultimately show ?thesis
        using Cons.IH [of p'] True by auto
    next
      case (Fail e)
      with True have "buildPathsForRoot_range lowerCase paths (f # fs)
          = Fail (fmt_Errorf (Name f @ (str '' :'') @ Error e) e)"
        by simp
      with field Fail True show ?thesis
        by auto
    next
      case (Panic m)
      with True have "buildPathsForRoot_range lowerCase paths (f # fs) = Panic m"
        by simp
      with field Panic True show ?thesis
        by auto
    qed
  qed
qed

lemma newEnv_range_candidates:
  "newEnv_range env params = Return env' \<Longrightarrow> Parameter_candidate c \<in> set params \<Longrightarrow>
   c \<in> set (env_candidates env')"
  "newEnv_range env params = Return env' \<Longrightarrow> c \<in> set (env_candidates env) \<Longrightarrow>
   c \<in> set (env_candidates env')"
  by (induction env params rule: newEnv_range.induct)
     (auto split: Parameter.splits if_splits)

lemma newEnv_candidates:
  "newEnv params = Return env \<Longrightarrow> Parameter_candidate c \<in> set params \<Longrightarrow>
   c \<in> set (env_candidates env)"
  by (auto simp: newEnv_def split: outcome.splits if_splits dest: newEnv_range_candidates(1))

lemma newTraverseResolver_range_Return:
  "newTraverseResolver_range lowerCase candidatePaths cs = Return candidatePaths' \<Longrightarrow> c \<in> set cs \<Longrightarrow>
   \<exists>paths. buildPathsForRoot lowerCase (c_typ c) = Return paths"
  by (induction cs arbitrary: candidatePaths) (auto split: outcome.splits)

lemma newTraverseResolver_range_first_Fail:
  "\<forall>c' \<in> set pre. \<exists>paths. buildPathsForRoot lowerCase (c_typ c') = Return paths \<Longrightarrow>
   buildPathsForRoot lowerCase (c_typ c) = Fail e \<Longrightarrow>
   newTraverseResolver_range lowerCase candidatePaths (pre @ c # post)
     = Fail (fmt_Errorf ((case c_typ c of None \<Rightarrow> (str ''%!s(<nil>)'') | Some t \<Rightarrow> String t)
                          @ (str '': '') @ Error e) e)"
  by (induction pre arbitrary: candidatePaths) auto

text \<open>
  No walk records the tag \<^verbatim>\<open>gjson.True\<close>, so no fingerprint that \<^verbatim>\<open>newTraverseResolver\<close>
  builds has an entry that the literal \<^verbatim>\<open>true\<close> satisfies.
\<close>

lemma update_tags: "snd ` set (AList.update k v al) \<subseteq> insert v (snd ` set al)"
  by (induction al) auto

lemma walk_never_True:
  "buildPathsForField lowerCase paths cur t = Return paths' \<Longrightarrow> gjson_True \<notin> snd ` set paths \<Longrightarrow>
   gjson_True \<notin> snd ` set paths'"
  "buildPathsForField_range lowerCase paths cur fs = Return paths' \<Longrightarrow> gjson_True \<notin> snd ` set paths \<Longrightarrow>
   gjson_True \<notin> snd ` set paths'"
proof (induction lowerCase paths cur t and lowerCase paths cur fs arbitrary: paths' and paths'
    rule: buildPathsForField_buildPathsForField_range.induct)
  case (1 lowerCase paths cur t)
  show ?case
  proof (cases "Kind t = reflect_Struct")
    case True
    then have "VisibleFields t = Return (Fields t)" "getJSONType t = Return gjson_JSON"
      by (simp_all add: VisibleFields_def getJSONType_def)
    with True "1.prems" "1.IH" [of gjson_JSON "Fields t" paths'] show ?thesis
      by (simp add: buildPathsForField_struct)
  next
    case False
    have tags: "getJSONType t = Return j \<Longrightarrow> Kind t \<noteq> reflect_Bool \<Longrightarrow> j \<noteq> gjson_True" for j
      by (cases "Kind t") (auto simp: getJSONType_def)
    have ret: "\<not> unsupportedKind (Kind t) \<Longrightarrow> \<exists>j. getJSONType t = Return j"
      by (cases "Kind t") (auto simp: getJSONType_def unsupportedKind_def)
    from False "1.prems"(1) have k: "\<not> unsupportedKind (Kind t)" "Kind t \<noteq> reflect_Pointer"
      by (auto simp: buildPathsForField_not_struct split: if_splits)
    show ?thesis
    proof (cases "Kind t = reflect_Bool")
      case True
      with False k "1.prems"(1)
      have "paths' = AList.update cur gjson_False (AList.update cur gjson_True paths)"
        by (simp add: buildPathsForField_not_struct)
      then have "paths' = AList.update cur gjson_False paths"
        by simp
      with "1.prems"(2) update_tags [of cur gjson_False paths] show ?thesis
        by auto
    next
      case nb: False
      from ret [OF k(1)] obtain j where j: "getJSONType t = Return j" ..
      with False k nb "1.prems"(1) have "paths' = AList.update cur j paths"
        by (simp add: buildPathsForField_not_struct)
      with tags [OF j nb] "1.prems"(2) update_tags [of cur j paths] show ?thesis
        by auto
    qed
  qed
next
  case (2 lowerCase paths cur)
  then show ?case by simp
next
  case (3 lowerCase paths cur f fs)
  show ?case
  proof (cases "IsExported f \<and> getJSONName f \<noteq> jsonIgnoreTag")
    case False
    with "3.prems" "3.IH"(1,2) show ?thesis
      by (auto split: if_splits)
  next
    case True
    with "3.prems"(1) obtain p where p: "buildPathsForField lowerCase paths (appendToPath lowerCase cur (getJSONName f)) (Type f) = Return p"
      and rest: "buildPathsForField_range lowerCase p cur fs = Return paths'"
      by (auto split: outcome.splits)
    from True p "3.IH"(3) [of "getJSONName f" p] "3.prems"(2) have "gjson_True \<notin> snd ` set p"
      by simp
    with True p rest "3.IH"(4) [of "getJSONName f" p paths'] show ?thesis
      by simp
  qed
qed

lemma root_never_True:
  "buildPathsForRoot_range lowerCase paths fs = Return paths' \<Longrightarrow> gjson_True \<notin> snd ` set paths \<Longrightarrow>
   gjson_True \<notin> snd ` set paths'"
proof (induction fs arbitrary: paths)
  case Nil
  then show ?case by simp
next
  case (Cons f fs)
  show ?case
  proof (cases "IsExported f")
    case False
    with Cons show ?thesis by simp
  next
    case True
    with Cons.prems(1) obtain p
      where p: "buildPathsForField lowerCase paths (appendToPath lowerCase [] (getJSONName f)) (Type f) = Return p"
        and rest: "buildPathsForRoot_range lowerCase p fs = Return paths'"
      by (auto split: outcome.splits)
    from walk_never_True(1) [OF p Cons.prems(2)] rest show ?thesis
      by (rule Cons.IH [rotated])
  qed
qed

lemma buildPathsForRoot_never_True:
  "buildPathsForRoot lowerCase t = Return paths \<Longrightarrow> gjson_True \<notin> snd ` set paths"
proof (cases t)
  case None
  assume "buildPathsForRoot lowerCase t = Return paths"
  with None show ?thesis by simp
next
  case (Some u)
  assume "buildPathsForRoot lowerCase t = Return paths"
  with Some have "buildPathsForRoot_range lowerCase [] (Fields u) = Return paths"
    by (auto simp: VisibleFields_def split: if_splits)
  then show ?thesis
    by (rule root_never_True) simp
qed

lemma noTrue_deletePath: "noTrue candidatePaths \<Longrightarrow> noTrue (deletePath c path candidatePaths)"
  unfolding noTrue_def deletePath_def
  by (induction candidatePaths) (auto simp: AList.delete_eq)

lemma noTrue_rangeB:
  "noTrue candidatePaths \<Longrightarrow>
   noTrue (makeUniquePaths_rangeB candidateA pathA typeA candidateB pathsB candidatePaths)"
  by (induction pathsB) (auto simp: noTrue_deletePath)

lemma noTrue_candidatesB:
  "noTrue candidatePaths \<Longrightarrow>
   noTrue (makeUniquePaths_candidatesB candidateA pathA typeA ks candidatePaths)"
  by (induction ks arbitrary: candidatePaths) (auto simp: noTrue_rangeB)

lemma noTrue_rangeA:
  "noTrue candidatePaths \<Longrightarrow> noTrue (makeUniquePaths_rangeA candidateA pathsA candidatePaths)"
  by (induction pathsA arbitrary: candidatePaths) (auto simp: noTrue_candidatesB)

lemma noTrue_candidatesA:
  "noTrue candidatePaths \<Longrightarrow> noTrue (makeUniquePaths_candidatesA ks candidatePaths)"
  by (induction ks arbitrary: candidatePaths) (auto simp: noTrue_rangeA)

lemma noTrue_update:
  "noTrue candidatePaths \<Longrightarrow> gjson_True \<notin> snd ` set paths \<Longrightarrow>
   noTrue (AList.update c paths candidatePaths)"
  unfolding noTrue_def by (induction candidatePaths) auto

lemma noTrue_newTraverseResolver_range:
  "newTraverseResolver_range lowerCase candidatePaths cs = Return candidatePaths' \<Longrightarrow>
   noTrue candidatePaths \<Longrightarrow> noTrue candidatePaths'"
proof (induction cs arbitrary: candidatePaths)
  case Nil
  then show ?case by simp
next
  case (Cons c cs)
  from Cons.prems(1) obtain paths where paths: "buildPathsForRoot lowerCase (c_typ c) = Return paths"
    and rest: "newTraverseResolver_range lowerCase (AList.update c paths candidatePaths) cs = Return candidatePaths'"
    by (auto split: outcome.splits)
  from Cons.prems(2) buildPathsForRoot_never_True [OF paths]
  have "noTrue (AList.update c paths candidatePaths)"
    by (rule noTrue_update)
  with rest show ?case
    by (rule Cons.IH)
qed

lemma fingerprints_never_True:
  assumes "newTraverseResolver lowerCase env = Return r"
  shows "noTrue (resolver_paths r)"
proof -
  from assms obtain candidatePaths
    where built: "newTraverseResolver_range lowerCase [] (env_candidates env) = Return candidatePaths"
      and r: "resolver_paths r = makeUniquePaths candidatePaths"
    by (auto simp: newTraverseResolver_def split: outcome.splits)
  have "noTrue []"
    by (simp add: noTrue_def)
  with built have "noTrue candidatePaths"
    by (rule noTrue_newTraverseResolver_range)
  then show ?thesis
    unfolding r makeUniquePaths_def by (rule noTrue_candidatesA)
qed

lemma fingerprint_entry_rejects_true:
  assumes "newTraverseResolver lowerCase env = Return r"
    and "(c, paths) \<in> set (resolver_paths r)" and "(path, t) \<in> set paths"
    and "Result_Get res path = gjson_True"
  shows "Result_Get res path \<noteq> t"
proof -
  from fingerprints_never_True [OF assms(1)] assms(2) have "gjson_True \<notin> snd ` set paths"
    by (auto simp: noTrue_def)
  with assms(3,4) show ?thesis
    by force
qed

lemma buildPathsForField_Bool:
  "Kind t = reflect_Bool \<Longrightarrow>
   buildPathsForField lowerCase paths cur t
     = Return (AList.update cur gjson_False (AList.update cur gjson_True paths))
   \<and> map_of (AList.update cur gjson_False (AList.update cur gjson_True paths)) cur
     = Some gjson_False"
  by (simp add: buildPathsForField_not_struct unsupportedKind_def update_conv')

lemma buildPathsForField_Pointer:
  "Kind t = reflect_Pointer \<Longrightarrow>
   buildPathsForField lowerCase paths cur t = Panic ''reflect.VisibleFields of non-struct type''"
  by (simp add: buildPathsForField_not_struct unsupportedKind_def)

text \<open>
  C1. The claim has a document with the literal \<^verbatim>\<open>true\<close> at the path of a boolean field
  resolve to the candidate, like one with \<^verbatim>\<open>false\<close>. For a boolean field
  \<^verbatim>\<open>buildPathsForField\<close> assigns \<^verbatim>\<open>gjson.True\<close> and then \<^verbatim>\<open>gjson.False\<close> to the same
  key, so the map keeps \<^verbatim>\<open>gjson.False\<close> only. For \<^verbatim>\<open>struct { Flag bool }\<close> the
  fingerprint is \<^verbatim>\<open>flag\<close> with \<^verbatim>\<open>gjson.False\<close>; the document with \<^verbatim>\<open>true\<close> at
  \<^verbatim>\<open>flag\<close> resolves to no candidate, the one with \<^verbatim>\<open>false\<close> resolves to the struct.
\<close>

theorem bool_field_true_literal_no_match:
  "buildPathsForRoot lowerCase (Some flagged) = Return [((str ''flag''), gjson_False)]
   \<and> New lowerCase [Parameter_candidate (candidate 0 (Some flagged))]
       = Return \<lparr>resolver = Some (ResolveJSON flagged_resolver)\<rparr>
   \<and> ResolveJSON flagged_resolver (document [((str ''flag''), gjson_True)]) = (None, None)
   \<and> ResolveJSON flagged_resolver (document [((str ''flag''), gjson_False)]) = (Some flagged, None)"
proof -
  have "buildPathsForRoot lowerCase (Some flagged) = Return [((str ''flag''), gjson_False)]"
    by code_simp
  moreover have "newEnv [Parameter_candidate (candidate 0 (Some flagged))]
      = Return (resolver_env flagged_resolver)"
    by code_simp
  moreover have "newTraverseResolver lowerCase (resolver_env flagged_resolver) = Return flagged_resolver"
    by code_simp
  moreover have "ResolveJSON flagged_resolver (document [((str ''flag''), gjson_True)]) = (None, None)"
    by (simp add: ResolveJSON_def flagged_resolver_def document_def)
  moreover have "ResolveJSON flagged_resolver (document [((str ''flag''), gjson_False)])
      = (Some flagged, None)"
    by (simp add: ResolveJSON_def flagged_resolver_def document_def)
  ultimately show ?thesis
    by (simp add: New_def)
qed

text \<open>
  Both loops skip an unexported field. The loop of \<^verbatim>\<open>buildPathsForField\<close> also skips a
  field tagged \<^verbatim>\<open>json:"-"\<close>; the loop of \<^verbatim>\<open>buildPathsForRoot\<close> walks it, at the empty
  path.
\<close>

lemma unexported_field_skipped:
  "\<not> IsExported f \<Longrightarrow>
   buildPathsForRoot_range lowerCase paths (f # fs) = buildPathsForRoot_range lowerCase paths fs
   \<and> buildPathsForField_range lowerCase paths cur (f # fs) = buildPathsForField_range lowerCase paths cur fs"
  by simp

lemma nested_ignored_field_skipped:
  "Tag_json f = jsonIgnoreTag \<Longrightarrow>
   buildPathsForField_range lowerCase paths cur (f # fs) = buildPathsForField_range lowerCase paths cur fs"
  by (simp add: getJSONName_def)

lemma appendToPath_ignored: "appendToPath lowerCase [] jsonIgnoreTag = []"
  by code_simp

lemma root_ignored_field_walked:
  "IsExported f \<Longrightarrow> Tag_json f = jsonIgnoreTag \<Longrightarrow>
   buildPathsForRoot_range lowerCase paths (f # fs) =
     (case buildPathsForField lowerCase paths [] (Type f) of
        Fail err \<Rightarrow> Fail (fmt_Errorf (Name f @ (str '' :'') @ Error err) err)
      | Panic msg \<Rightarrow> Panic msg
      | Return paths' \<Rightarrow> buildPathsForRoot_range lowerCase paths' fs)"
  by (simp add: getJSONName_def appendToPath_ignored)

text \<open>
  C5. The claim has a field tagged \<^verbatim>\<open>json:"-"\<close> contribute nothing at any level, the
  top level included. \<^verbatim>\<open>buildPathsForField\<close> skips such a field of a nested struct;
  \<^verbatim>\<open>buildPathsForRoot\<close> has no such test. A tagged string field at the top level is
  recorded under the empty path (the name \<^verbatim>\<open>-\<close> normalises to nothing), while the
  tagged field of the nested struct is left out; a tagged struct at the top level is
  walked, and its fields appear as if they were top-level fields.
\<close>

theorem ignored_top_level_field_recorded:
  "buildPathsForRoot lowerCase (Some secret) = Return [([], gjson_String), ((str ''meta.kept''), gjson_Number)]
   \<and> buildPathsForRoot lowerCase (Some wrapped) = Return [((str ''x''), gjson_Number)]"
  by code_simp

text \<open>
  C9. The claim has the walk of a record with a pointer-typed field never fault and
  recurse into the record the pointer points to. \<^verbatim>\<open>getJSONType\<close> gives
  \<^verbatim>\<open>gjson.JSON\<close> for a pointer, the pointer is no array, slice or map, and
  \<^verbatim>\<open>reflect.VisibleFields\<close> is then called on the pointer type itself, which panics
  (lemma \<open>buildPathsForField_Pointer\<close>). For a struct with a field that points to a
  struct the walk panics, and so does \<^verbatim>\<open>New\<close>.
\<close>

theorem pointer_field_panics:
  "buildPathsForRoot lowerCase (Some linked) = Panic ''reflect.VisibleFields of non-struct type''
   \<and> New lowerCase [Parameter_candidate (candidate 0 (Some linked))]
       = Panic ''reflect.VisibleFields of non-struct type''"
proof -
  have "buildPathsForRoot lowerCase (Some linked) = Panic ''reflect.VisibleFields of non-struct type''"
    by code_simp
  moreover have "newEnv [Parameter_candidate (candidate 0 (Some linked))]
      = Return \<lparr>env_selectors = [], env_candidates = [candidate 0 (Some linked)],
                 env_settings = [], env_fallback = None\<rparr>"
    by code_simp
  ultimately show ?thesis
    by (simp add: New_def newTraverseResolver_def)
qed
subsection \<open>Fields of unsupported kinds\<close>

lemma find_append:
  "find P (xs @ ys) = (case find P xs of None \<Rightarrow> find P ys | Some x \<Rightarrow> Some x)"
  by (induction xs) simp_all

lemma walk_first:
  "(find (\<lambda>u. unsupportedKind (Kind u) \<or> Kind u = reflect_Pointer) (walked t) = None \<longrightarrow>
      (\<exists>p'. buildPathsForField lowerCase paths cur t = Return p'))
   \<and> (\<forall>v. find (\<lambda>u. unsupportedKind (Kind u) \<or> Kind u = reflect_Pointer) (walked t) = Some v \<longrightarrow>
      buildPathsForField lowerCase paths cur t =
        (if unsupportedKind (Kind v) then Fail (unsupported v)
         else Panic ''reflect.VisibleFields of non-struct type''))"
  "(find (\<lambda>u. unsupportedKind (Kind u) \<or> Kind u = reflect_Pointer) (walked_fields fs) = None \<longrightarrow>
      (\<exists>p'. buildPathsForField_range lowerCase paths cur fs = Return p'))
   \<and> (\<forall>v. find (\<lambda>u. unsupportedKind (Kind u) \<or> Kind u = reflect_Pointer) (walked_fields fs) = Some v \<longrightarrow>
      buildPathsForField_range lowerCase paths cur fs =
        (if unsupportedKind (Kind v) then Fail (unsupported v)
         else Panic ''reflect.VisibleFields of non-struct type''))"
proof (induction lowerCase paths cur t and lowerCase paths cur fs rule: buildPathsForField_buildPathsForField_range.induct)
  case (1 lowerCase paths cur t)
  let ?stop = "\<lambda>u. unsupportedKind (Kind u) \<or> Kind u = reflect_Pointer"
  show ?case
  proof (cases "Kind t = reflect_Struct")
    case True
    then have "VisibleFields t = Return (Fields t)" "getJSONType t = Return gjson_JSON"
      by (simp_all add: VisibleFields_def getJSONType_def)
    with True have IH:
      "(find ?stop (walked_fields (Fields t)) = None \<longrightarrow>
          (\<exists>p'. buildPathsForField_range lowerCase paths cur (Fields t) = Return p'))
       \<and> (\<forall>v. find ?stop (walked_fields (Fields t)) = Some v \<longrightarrow>
          buildPathsForField_range lowerCase paths cur (Fields t) =
            (if unsupportedKind (Kind v) then Fail (unsupported v)
             else Panic ''reflect.VisibleFields of non-struct type''))"
      using "1.IH" [of gjson_JSON "Fields t"] by simp
    from True have "walked t = t # walked_fields (Fields t)"
      by (simp add: walked_unfold)
    with True IH show ?thesis
      by (simp add: buildPathsForField_struct unsupportedKind_def)
  next
    case False
    then have "walked t = [t]"
      by (simp add: walked_unfold)
    with False show ?thesis
      by (simp add: buildPathsForField_not_struct)
  qed
next
  case (2 lowerCase paths cur)
  show ?case by simp
next
  case (3 lowerCase paths cur f fs)
  let ?stop = "\<lambda>u. unsupportedKind (Kind u) \<or> Kind u = reflect_Pointer"
  show ?case
  proof (cases "IsExported f \<and> getJSONName f \<noteq> jsonIgnoreTag")
    case False
    then have skip: "buildPathsForField_range lowerCase paths cur (f # fs) = buildPathsForField_range lowerCase paths cur fs"
      "walked_fields (f # fs) = walked_fields fs"
      by (auto simp: walked_fields_Cons)
    from False "3.IH"(1,2) show ?thesis
      unfolding skip by blast
  next
    case True
    let ?r = "buildPathsForField lowerCase paths (appendToPath lowerCase cur (getJSONName f)) (Type f)"
    from True have field:
      "(find ?stop (walked (Type f)) = None \<longrightarrow> (\<exists>p'. ?r = Return p'))
       \<and> (\<forall>v. find ?stop (walked (Type f)) = Some v \<longrightarrow>
            ?r = (if unsupportedKind (Kind v) then Fail (unsupported v)
                  else Panic ''reflect.VisibleFields of non-struct type''))"
      using "3.IH"(3) by simp
    from True have w: "walked_fields (f # fs) = walked (Type f) @ walked_fields fs"
      by (simp add: walked_fields_Cons)
    show ?thesis
    proof (cases "find ?stop (walked (Type f))")
      case (Some v)
      with field have "?r = (if unsupportedKind (Kind v) then Fail (unsupported v)
                  else Panic ''reflect.VisibleFields of non-struct type'')"
        by simp
      with True have "buildPathsForField_range lowerCase paths cur (f # fs)
          = (if unsupportedKind (Kind v) then Fail (unsupported v)
             else Panic ''reflect.VisibleFields of non-struct type'')"
        by simp
      with Some show ?thesis
        unfolding w by (simp add: find_append)
    next
      case None
      with field obtain p' where r: "?r = Return p'"
        by blast
      with True have step: "buildPathsForField_range lowerCase paths cur (f # fs)
          = buildPathsForField_range lowerCase p' cur fs"
        by simp
      from True r have
        "(find ?stop (walked_fields fs) = None \<longrightarrow>
            (\<exists>q. buildPathsForField_range lowerCase p' cur fs = Return q))
         \<and> (\<forall>v. find ?stop (walked_fields fs) = Some v \<longrightarrow>
            buildPathsForField_range lowerCase p' cur fs =
              (if unsupportedKind (Kind v) then Fail (unsupported v)
               else Panic ''reflect.VisibleFields of non-struct type''))"
        using "3.IH"(4) [of "getJSONName f" p'] by simp
      with None show ?thesis
        unfolding w step by (simp add: find_append)
    qed
  qed
qed

lemma find_first:
  "xs = pre @ v # post \<Longrightarrow> \<forall>u \<in> set pre. \<not> P u \<Longrightarrow> P v \<Longrightarrow> find P xs = Some v"
  by (simp add: find_append find_None_iff [THEN iffD2])

lemma root_prefix_Return:
  "\<forall>u \<in> set (walked_root fs1). \<not> unsupportedKind (Kind u) \<and> Kind u \<noteq> reflect_Pointer \<Longrightarrow>
   \<exists>p'. buildPathsForRoot_range lowerCase paths (fs1 @ rest) = buildPathsForRoot_range lowerCase p' rest"
proof (induction fs1 arbitrary: paths)
  case Nil
  show ?case by auto
next
  case (Cons f fs1)
  show ?case
  proof (cases "IsExported f")
    case False
    with Cons.IH [of paths] Cons.prems show ?thesis by simp
  next
    case True
    with Cons.prems have
      "find (\<lambda>u. unsupportedKind (Kind u) \<or> Kind u = reflect_Pointer) (walked (Type f)) = None"
      by (auto simp: find_None_iff)
    then obtain p' where
      "buildPathsForField lowerCase paths (appendToPath lowerCase [] (getJSONName f)) (Type f) = Return p'"
      using walk_first(1) [of "Type f" lowerCase paths "appendToPath lowerCase [] (getJSONName f)"]
      by blast
    with True have "buildPathsForRoot_range lowerCase paths ((f # fs1) @ rest)
        = buildPathsForRoot_range lowerCase p' (fs1 @ rest)"
      by simp
    with Cons.IH [of p'] Cons.prems True show ?thesis
      by simp
  qed
qed

lemma walked_fields_root: "set (walked_fields fs) \<subseteq> set (walked_root fs)"
  by (induction fs) (auto simp: walked_fields_Cons)

lemma Error_unsupported: "Error (unsupported v) = (str ''unsupported type: '') @ String v"
  by (simp add: unsupported_def ErrUnsupportedType_def)

lemma errors_Is_unsupported: "errors_Is (unsupported v) ErrUnsupportedType"
  by (simp add: unsupported_def ErrUnsupportedType_def)

text \<open>
  C4 (as amended). Let a candidate struct have a field of an unsupported kind (function,
  channel, unsafe pointer, interface, invalid) that is accessible: it is exported and not
  tagged \<^verbatim>\<open>json:"-"\<close>, at the top level or inside nested accessible structs. Then no call
  of \<^verbatim>\<open>New\<close> with that candidate returns an engine. When that field \<open>v\<close> is the first
  that stops the walker (no type the walker meets before it, in the top-level fields
  \<open>fs1\<close> before its top-level field \<open>f\<close> or earlier inside \<open>f\<close>, is of an unsupported
  kind or a pointer), the walk of the candidate fails with \<^verbatim>\<open>ErrUnsupportedType\<close>, the
  message made of the name of \<open>f\<close> and the \<^verbatim>\<open>String()\<close> of \<open>v\<close>, whatever comes after
  \<open>v\<close>; and when the parameters are valid and the candidates registered before this one
  walk without failure, \<^verbatim>\<open>New\<close> returns that error, wrapped twice more and still
  \<^verbatim>\<open>ErrUnsupportedType\<close> for \<^verbatim>\<open>errors.Is\<close>.
\<close>

theorem unsupported_field_fails_construction:
  assumes struct: "Kind t = reflect_Struct"
  shows "((\<exists>v \<in> set (walked_fields (Fields t)). unsupportedKind (Kind v)) \<longrightarrow>
            (\<forall>params a. Parameter_candidate (candidate a (Some t)) \<in> set params \<longrightarrow>
               (\<forall>engine. New lowerCase params \<noteq> Return engine)))
       \<and> (\<forall>fs1 f fs2 pre v post.
            Fields t = fs1 @ f # fs2
            \<and> (\<forall>u \<in> set (walked_root fs1). \<not> unsupportedKind (Kind u) \<and> Kind u \<noteq> reflect_Pointer)
            \<and> IsExported f \<and> getJSONName f \<noteq> jsonIgnoreTag
            \<and> walked (Type f) = pre @ v # post
            \<and> (\<forall>u \<in> set pre. \<not> unsupportedKind (Kind u) \<and> Kind u \<noteq> reflect_Pointer)
            \<and> unsupportedKind (Kind v)
            \<longrightarrow> buildPathsForRoot lowerCase (Some t)
                  = Fail (fmt_Errorf (Name f @ (str '' :unsupported type: '') @ String v) (unsupported v))
                \<and> (\<forall>params env a before after.
                     newEnv params = Return env
                     \<and> env_candidates env = before @ candidate a (Some t) # after
                     \<and> (\<forall>c \<in> set before. \<exists>paths. buildPathsForRoot lowerCase (c_typ c) = Return paths)
                     \<longrightarrow> (\<exists>e. New lowerCase params = Fail e \<and> errors_Is e ErrUnsupportedType
                            \<and> Error e = (str ''resolver: '') @ String t @ (str '': '') @ Name f
                                          @ (str '' :unsupported type: '') @ String v)))"
proof (intro conjI allI impI)
  from struct have unfold:
    "buildPathsForRoot lowerCase (Some t) = buildPathsForRoot_range lowerCase [] (Fields t)"
    by (simp add: VisibleFields_def)
  {
    fix params a engine
    assume bad: "\<exists>v \<in> set (walked_fields (Fields t)). unsupportedKind (Kind v)"
      and mem: "Parameter_candidate (candidate a (Some t)) \<in> set params"
    from bad have bad': "\<exists>v \<in> set (walked_root (Fields t)). unsupportedKind (Kind v)"
      using walked_fields_root [of "Fields t"] by blast
    show "New lowerCase params \<noteq> Return engine"
    proof
      assume "New lowerCase params = Return engine"
      then obtain env r where env: "newEnv params = Return env"
        and "newTraverseResolver lowerCase env = Return r"
        by (auto simp: New_def split: outcome.splits)
      then obtain candidatePaths where
        "newTraverseResolver_range lowerCase [] (env_candidates env) = Return candidatePaths"
        by (auto simp: newTraverseResolver_def split: outcome.splits)
      moreover from env mem have "candidate a (Some t) \<in> set (env_candidates env)"
        by (rule newEnv_candidates)
      ultimately obtain paths where
        "buildPathsForRoot lowerCase (c_typ (candidate a (Some t))) = Return paths"
        by (blast dest: newTraverseResolver_range_Return)
      with unfold root_walk_outcome [of lowerCase "[]" "Fields t"] bad' show False
        by auto
    qed
  }
  fix fs1 f fs2 pre v post
  assume route: "Fields t = fs1 @ f # fs2
      \<and> (\<forall>u \<in> set (walked_root fs1). \<not> unsupportedKind (Kind u) \<and> Kind u \<noteq> reflect_Pointer)
      \<and> IsExported f \<and> getJSONName f \<noteq> jsonIgnoreTag
      \<and> walked (Type f) = pre @ v # post
      \<and> (\<forall>u \<in> set pre. \<not> unsupportedKind (Kind u) \<and> Kind u \<noteq> reflect_Pointer)
      \<and> unsupportedKind (Kind v)"
  let ?e1 = "fmt_Errorf (Name f @ (str '' :unsupported type: '') @ String v) (unsupported v)"
  let ?e2 = "fmt_Errorf (String t @ (str '': '') @ Error ?e1) ?e1"
  from route obtain p' where before:
    "buildPathsForRoot_range lowerCase [] (Fields t) = buildPathsForRoot_range lowerCase p' (f # fs2)"
    using root_prefix_Return [of fs1 lowerCase "[]" "f # fs2"] by auto
  from route
  have "find (\<lambda>u. unsupportedKind (Kind u) \<or> Kind u = reflect_Pointer) (walked (Type f)) = Some v"
    by (intro find_first [of _ pre v post]) auto
  with route
  have "buildPathsForField lowerCase p' (appendToPath lowerCase [] (getJSONName f)) (Type f)
      = Fail (unsupported v)"
    using walk_first(1) [of "Type f" lowerCase p' "appendToPath lowerCase [] (getJSONName f)"]
    by simp
  with route have "buildPathsForRoot_range lowerCase p' (f # fs2)
      = Fail (fmt_Errorf (Name f @ (str '' :'') @ Error (unsupported v)) (unsupported v))"
    by simp
  with unfold before show walk: "buildPathsForRoot lowerCase (Some t) = Fail ?e1"
    by (simp add: Error_unsupported)
  fix params env a before after
  assume a: "newEnv params = Return env
        \<and> env_candidates env = before @ candidate a (Some t) # after
        \<and> (\<forall>c \<in> set before. \<exists>paths. buildPathsForRoot lowerCase (c_typ c) = Return paths)"
  from a walk have "newTraverseResolver_range lowerCase [] (env_candidates env) = Fail ?e2"
    using newTraverseResolver_range_first_Fail
      [of before lowerCase "candidate a (Some t)" ?e1 "[]" after]
    by simp
  with a have "New lowerCase params = Fail (fmt_Errorf ((str ''resolver: '') @ Error ?e2) ?e2)"
    by (simp add: New_def newTraverseResolver_def)
  then show "\<exists>e. New lowerCase params = Fail e \<and> errors_Is e ErrUnsupportedType
               \<and> Error e = (str ''resolver: '') @ String t @ (str '': '') @ Name f
                             @ (str '' :unsupported type: '') @ String v"
    by (simp add: errors_Is_unsupported)
qed

text \<open>
  \<^verbatim>\<open>struct { F func() bool; P *int }\<close>: the function-typed field stops the walk before it
  reaches the pointer.
\<close>

theorem unsupported_field_fails_construction_witness:
  "(\<forall>engine. New lowerCase_Latin1 [Parameter_candidate (candidate 0 (Some guarded))] \<noteq> Return engine)
     \<and> buildPathsForRoot lowerCase_Latin1 (Some guarded)
         = Fail (fmt_Errorf (str ''F :unsupported type: func() bool'') (unsupported t_func))
     \<and> (\<exists>e. New lowerCase_Latin1 [Parameter_candidate (candidate 0 (Some guarded))] = Fail e
            \<and> errors_Is e ErrUnsupportedType
            \<and> Error e = str ''resolver: main.guarded: F :unsupported type: func() bool'')"
proof -
  let ?f = "StructField (str ''F'') [] [] t_func"
  let ?p = "StructField (str ''P'') [] [] t_ptr"
  have env: "newEnv [Parameter_candidate (candidate 0 (Some guarded))]
      = Return \<lparr>env_selectors = [], env_candidates = [candidate 0 (Some guarded)],
                 env_settings = [], env_fallback = None\<rparr>"
    by code_simp
  have k: "Kind guarded = reflect_Struct"
    by (simp add: guarded_def)
  note inst = unsupported_field_fails_construction [OF k, of lowerCase_Latin1]
  have fields: "Fields guarded = [] @ ?f # [?p]"
    by (simp add: guarded_def)
  have exported: "IsExported ?f" "getJSONName ?f \<noteq> jsonIgnoreTag"
    by (simp_all add: IsExported_def getJSONName_def jsonIgnoreTag_def)
  have route: "walked (Type ?f) = [] @ t_func # []" "unsupportedKind (Kind t_func)"
    by (simp_all add: t_func_def unsupportedKind_def)
  have "\<exists>v \<in> set (walked_fields (Fields guarded)). unsupportedKind (Kind v)"
    by (simp add: guarded_def IsExported_def getJSONName_def jsonIgnoreTag_def t_func_def
        unsupportedKind_def)
  with inst have none: "\<forall>engine. New lowerCase_Latin1 [Parameter_candidate (candidate 0 (Some guarded))] \<noteq> Return engine"
    by simp
  from inst have "Fields guarded = [] @ ?f # [?p]
      \<and> (\<forall>u \<in> set (walked_root []). \<not> unsupportedKind (Kind u) \<and> Kind u \<noteq> reflect_Pointer)
      \<and> IsExported ?f \<and> getJSONName ?f \<noteq> jsonIgnoreTag
      \<and> walked (Type ?f) = [] @ t_func # []
      \<and> (\<forall>u \<in> set []. \<not> unsupportedKind (Kind u) \<and> Kind u \<noteq> reflect_Pointer)
      \<and> unsupportedKind (Kind t_func)
      \<longrightarrow> buildPathsForRoot lowerCase_Latin1 (Some guarded)
            = Fail (fmt_Errorf (Name ?f @ (str '' :unsupported type: '') @ String t_func)
                      (unsupported t_func))
          \<and> (\<forall>params env a before after.
               newEnv params = Return env
               \<and> env_candidates env = before @ candidate a (Some guarded) # after
               \<and> (\<forall>c \<in> set before. \<exists>paths. buildPathsForRoot lowerCase_Latin1 (c_typ c) = Return paths)
               \<longrightarrow> (\<exists>e. New lowerCase_Latin1 params = Fail e \<and> errors_Is e ErrUnsupportedType
                      \<and> Error e = (str ''resolver: '') @ String guarded @ (str '': '') @ Name ?f
                                    @ (str '' :unsupported type: '') @ String t_func))"
    by blast
  with fields exported route
  have walk: "buildPathsForRoot lowerCase_Latin1 (Some guarded)
            = Fail (fmt_Errorf (Name ?f @ (str '' :unsupported type: '') @ String t_func)
                      (unsupported t_func))"
    and new: "\<forall>params env a before after.
               newEnv params = Return env
               \<and> env_candidates env = before @ candidate a (Some guarded) # after
               \<and> (\<forall>c \<in> set before. \<exists>paths. buildPathsForRoot lowerCase_Latin1 (c_typ c) = Return paths)
               \<longrightarrow> (\<exists>e. New lowerCase_Latin1 params = Fail e \<and> errors_Is e ErrUnsupportedType
                      \<and> Error e = (str ''resolver: '') @ String guarded @ (str '': '') @ Name ?f
                                    @ (str '' :unsupported type: '') @ String t_func)"
    by simp_all
  have names: "String t_func = str ''func() bool''" "String guarded = str ''main.guarded''"
    by (simp_all add: t_func_def guarded_def)
  from new [rule_format, of "[Parameter_candidate (candidate 0 (Some guarded))]" _ "[]" 0 "[]"] env
  have "\<exists>e. New lowerCase_Latin1 [Parameter_candidate (candidate 0 (Some guarded))] = Fail e
      \<and> errors_Is e ErrUnsupportedType
      \<and> Error e = str ''resolver: main.guarded: F :unsupported type: func() bool''"
    by (simp add: names)
  with none walk
  show "(\<forall>engine. New lowerCase_Latin1 [Parameter_candidate (candidate 0 (Some guarded))] \<noteq> Return engine)
     \<and> buildPathsForRoot lowerCase_Latin1 (Some guarded)
         = Fail (fmt_Errorf (str ''F :unsupported type: func() bool'') (unsupported t_func))
     \<and> (\<exists>e. New lowerCase_Latin1 [Parameter_candidate (candidate 0 (Some guarded))] = Fail e
            \<and> errors_Is e ErrUnsupportedType
            \<and> Error e = str ''resolver: main.guarded: F :unsupported type: func() bool'')"
    by (simp add: names)
qed


text \<open>
  The claim as stated fails: with a pointer-typed field before the function-typed one,
  \<^verbatim>\<open>New\<close> panics and returns no error at all; and with a candidate that is not a struct
  registered first, \<^verbatim>\<open>New\<close> fails with the error of that candidate, which is not
  \<^verbatim>\<open>ErrUnsupportedType\<close>.
\<close>

theorem unsupported_field_other_outcomes:
  "New lowerCase_Latin1 [Parameter_candidate (candidate 0 (Some counted))]
       = Panic ''reflect.VisibleFields of non-struct type''
     \<and> New lowerCase_Latin1 [Parameter_candidate (candidate 0 (Some t_int)),
             Parameter_candidate (candidate 1 (Some handler))]
       = Fail (fmt_Errorf (str ''resolver: int: not a struct'')
                 (fmt_Errorf (str ''int: not a struct'') (errors_New (str ''not a struct''))))
     \<and> \<not> errors_Is (fmt_Errorf (str ''resolver: int: not a struct'')
                        (fmt_Errorf (str ''int: not a struct'') (errors_New (str ''not a struct''))))
            ErrUnsupportedType"
proof -
  have "newEnv [Parameter_candidate (candidate 0 (Some counted))]
      = Return \<lparr>env_selectors = [], env_candidates = [candidate 0 (Some counted)],
                 env_settings = [], env_fallback = None\<rparr>"
    by code_simp
  moreover have "buildPathsForRoot lowerCase_Latin1 (Some counted) = Panic ''reflect.VisibleFields of non-struct type''"
    by code_simp
  moreover have "newEnv [Parameter_candidate (candidate 0 (Some t_int)),
                        Parameter_candidate (candidate 1 (Some handler))]
      = Return \<lparr>env_selectors = [],
                 env_candidates = [candidate 0 (Some t_int), candidate 1 (Some handler)],
                 env_settings = [], env_fallback = None\<rparr>"
    by code_simp
  moreover have "buildPathsForRoot lowerCase_Latin1 (Some t_int) = Fail (errors_New (str ''not a struct''))"
    by code_simp
  moreover have "String t_int = (str ''int'')"
    by (simp add: t_int_def)
  ultimately show "New lowerCase_Latin1 [Parameter_candidate (candidate 0 (Some counted))]
       = Panic ''reflect.VisibleFields of non-struct type''
     \<and> New lowerCase_Latin1 [Parameter_candidate (candidate 0 (Some t_int)),
             Parameter_candidate (candidate 1 (Some handler))]
       = Fail (fmt_Errorf (str ''resolver: int: not a struct'')
                 (fmt_Errorf (str ''int: not a struct'') (errors_New (str ''not a struct''))))
     \<and> \<not> errors_Is (fmt_Errorf (str ''resolver: int: not a struct'')
                        (fmt_Errorf (str ''int: not a struct'') (errors_New (str ''not a struct''))))
            ErrUnsupportedType"
    by (simp add: New_def newTraverseResolver_def ErrUnsupportedType_def)
qed


subsection \<open>The fingerprint builder on maps that share nothing\<close>

lemma pathsOf_in_set:
  "(p, t) \<in> set (pathsOf candidatePaths c) \<Longrightarrow> \<exists>paths. (c, paths) \<in> set candidatePaths \<and> (p, t) \<in> set paths"
  by (cases "map_of candidatePaths c") (auto simp: pathsOf_def dest: map_of_SomeD)

lemma rangeB_no_match:
  "(pathA, typeA) \<notin> set pathsB \<Longrightarrow>
   makeUniquePaths_rangeB candidateA pathA typeA candidateB pathsB candidatePaths = candidatePaths"
proof (induction pathsB)
  case Nil
  then show ?case by simp
next
  case (Cons e pathsB)
  obtain pathB typeB where e: "e = (pathB, typeB)" by (cases e)
  from Cons.prems have "\<not> (pathA = pathB \<and> typeA = typeB)" "(pathA, typeA) \<notin> set pathsB"
    by (auto simp: e)
  then show ?case
    using Cons.IH by (auto simp: e)
qed

lemma candidatesB_no_match:
  "(\<And>candidateB. candidateB \<in> set ks \<Longrightarrow> c_typ candidateA \<noteq> c_typ candidateB \<Longrightarrow>
      (pathA, typeA) \<notin> set (pathsOf candidatePaths candidateB)) \<Longrightarrow>
   makeUniquePaths_candidatesB candidateA pathA typeA ks candidatePaths = candidatePaths"
  by (induction ks) (auto simp: rangeB_no_match)

lemma rangeA_no_match:
  "(\<And>pathA typeA candidateB. (pathA, typeA) \<in> set pathsA \<Longrightarrow>
      map_of (pathsOf candidatePaths candidateA) pathA = Some typeA \<Longrightarrow>
      candidateB \<in> set (map fst candidatePaths) \<Longrightarrow> c_typ candidateA \<noteq> c_typ candidateB \<Longrightarrow>
      (pathA, typeA) \<notin> set (pathsOf candidatePaths candidateB)) \<Longrightarrow>
   makeUniquePaths_rangeA candidateA pathsA candidatePaths = candidatePaths"
proof (induction pathsA)
  case Nil
  then show ?case by simp
next
  case (Cons e pathsA)
  obtain pathA typeA where e: "e = (pathA, typeA)" by (cases e)
  have rest: "makeUniquePaths_rangeA candidateA pathsA candidatePaths = candidatePaths"
    by (rule Cons.IH) (rule Cons.prems, auto)
  show ?case
  proof (cases "map_of (pathsOf candidatePaths candidateA) pathA = Some typeA")
    case True
    have "makeUniquePaths_candidatesB candidateA pathA typeA (map fst candidatePaths) candidatePaths
          = candidatePaths"
      by (rule candidatesB_no_match) (rule Cons.prems, auto simp: e True)
    then show ?thesis by (simp add: e True rest)
  next
    case False
    then show ?thesis by (simp add: e rest)
  qed
qed

lemma candidatesA_no_match:
  "(\<And>candidateA pathA typeA candidateB. candidateA \<in> set ks \<Longrightarrow>
      (pathA, typeA) \<in> set (pathsOf candidatePaths candidateA) \<Longrightarrow>
      candidateB \<in> set (map fst candidatePaths) \<Longrightarrow> c_typ candidateA \<noteq> c_typ candidateB \<Longrightarrow>
      (pathA, typeA) \<notin> set (pathsOf candidatePaths candidateB)) \<Longrightarrow>
   makeUniquePaths_candidatesA ks candidatePaths = candidatePaths"
proof (induction ks)
  case Nil
  then show ?case by simp
next
  case (Cons candidateA ks)
  have "makeUniquePaths_rangeA candidateA (pathsOf candidatePaths candidateA) candidatePaths
        = candidatePaths"
    by (rule rangeA_no_match) (rule Cons.prems, auto)
  moreover have "makeUniquePaths_candidatesA ks candidatePaths = candidatePaths"
    by (rule Cons.IH) (rule Cons.prems, auto)
  ultimately show ?case by simp
qed

text \<open>
  C7. When the path-kind maps of the candidates are pairwise disjoint as sets of
  (path, kind) pairs, \<^verbatim>\<open>makeUniquePaths\<close> returns every map as it was: no entry is
  removed from any candidate.
\<close>

theorem makeUniquePaths_disjoint_identity:
  assumes "\<forall>(candidateA, pathsA) \<in> set candidatePaths. \<forall>(candidateB, pathsB) \<in> set candidatePaths.
             candidateA \<noteq> candidateB \<longrightarrow> set pathsA \<inter> set pathsB = {}"
  shows "makeUniquePaths candidatePaths = candidatePaths"
  unfolding makeUniquePaths_def
proof (rule candidatesA_no_match)
  fix candidateA pathA typeA candidateB
  assume a: "(pathA, typeA) \<in> set (pathsOf candidatePaths candidateA)"
    and ne: "c_typ candidateA \<noteq> c_typ candidateB"
  show "(pathA, typeA) \<notin> set (pathsOf candidatePaths candidateB)"
  proof
    assume b: "(pathA, typeA) \<in> set (pathsOf candidatePaths candidateB)"
    from a obtain pathsA where pa: "(candidateA, pathsA) \<in> set candidatePaths" "(pathA, typeA) \<in> set pathsA"
      by (blast dest: pathsOf_in_set)
    from b obtain pathsB where pb: "(candidateB, pathsB) \<in> set candidatePaths" "(pathA, typeA) \<in> set pathsB"
      by (blast dest: pathsOf_in_set)
    from ne have "candidateA \<noteq> candidateB" by auto
    with assms pa(1) pb(1) have "set pathsA \<inter> set pathsB = {}" by blast
    with pa(2) pb(2) show False by blast
  qed
qed


theorem makeUniquePaths_disjoint_identity_witness:
  "makeUniquePaths [(candidate 0 (Some main_s1), [((str ''foo''), gjson_String)]),
                    (candidate 1 (Some main_s2), [((str ''bar''), gjson_String)])]
   = [(candidate 0 (Some main_s1), [((str ''foo''), gjson_String)]),
      (candidate 1 (Some main_s2), [((str ''bar''), gjson_String)])]"
  by (rule makeUniquePaths_disjoint_identity) simp


subsection \<open>The fingerprint builder on candidates of different types\<close>

text \<open>
  What each loop of \<^verbatim>\<open>makeUniquePaths\<close> does to the tag every candidate holds at every
  path, from the innermost loop outwards. The candidates keep their places; only tags are
  removed.
\<close>

lemma deletePath_keys: "map fst (deletePath c path candidatePaths) = map fst candidatePaths"
  unfolding deletePath_def by (induction candidatePaths) auto

lemma pathsOf_deletePath:
  "pathsOf (deletePath c path candidatePaths) c' =
     (if c' = c then AList.delete path (pathsOf candidatePaths c') else pathsOf candidatePaths c')"
  by (auto simp: pathsOf_def deletePath_def map_of_map_entry split: option.splits)

lemma tagAt_deletePath:
  "tagAt (deletePath c path candidatePaths) c' path' =
     (if c' = c \<and> path' = path then None else tagAt candidatePaths c' path')"
  by (simp add: tagAt_def pathsOf_deletePath delete_conv')

lemma pathMaps_deletePath: "pathMaps candidatePaths \<Longrightarrow> pathMaps (deletePath c path candidatePaths)"
  by (simp add: pathMaps_def pathsOf_deletePath distinct_delete)

lemma pathMaps_mem: "pathMaps candidatePaths \<Longrightarrow>
  (path, t) \<in> set (pathsOf candidatePaths c) \<longleftrightarrow> tagAt candidatePaths c path = Some t"
  by (simp add: pathMaps_def tagAt_def)

lemma rangeB_eq:
  "makeUniquePaths_rangeB candidateA pathA typeA candidateB pathsB candidatePaths =
     (if (pathA, typeA) \<in> set pathsB
      then deletePath candidateB pathA (deletePath candidateA pathA candidatePaths)
      else candidatePaths)"
proof (induction pathsB)
  case Nil
  show ?case by simp
next
  case (Cons e pathsB)
  obtain pathB typeB where e: "e = (pathB, typeB)"
    by (cases e)
  show ?case
  proof (cases "pathA = pathB \<and> typeA = typeB")
    case True
    then show ?thesis by (simp add: e)
  next
    case False
    then have "(pathA, typeA) \<in> set (e # pathsB) \<longleftrightarrow> (pathA, typeA) \<in> set pathsB"
      by (auto simp: e)
    with False Cons.IH show ?thesis
      by (auto simp: e)
  qed
qed

lemma rangeB_effect:
  fixes candidateA candidateB :: candidate and pathA :: gostring and typeA :: gjson_Type
  assumes "pathMaps candidatePaths"
  defines "candidatePaths' \<equiv> makeUniquePaths_rangeB candidateA pathA typeA candidateB
             (pathsOf candidatePaths candidateB) candidatePaths"
  shows "map fst candidatePaths' = map fst candidatePaths"
    and "pathMaps candidatePaths'"
    and "tagAt candidatePaths' c path =
           (if path = pathA \<and> tagAt candidatePaths candidateB pathA = Some typeA
               \<and> (c = candidateA \<or> c = candidateB)
            then None else tagAt candidatePaths c path)"
  using assms(1) unfolding candidatePaths'_def rangeB_eq
  by (auto simp: deletePath_keys pathMaps_deletePath tagAt_deletePath pathMaps_mem)

lemma candidatesB_effect:
  assumes "pathMaps candidatePaths"
  shows "map fst (makeUniquePaths_candidatesB candidateA pathA typeA ks candidatePaths)
           = map fst candidatePaths
    \<and> pathMaps (makeUniquePaths_candidatesB candidateA pathA typeA ks candidatePaths)
    \<and> (\<forall>c path. tagAt (makeUniquePaths_candidatesB candidateA pathA typeA ks candidatePaths) c path =
           (if path = pathA
               \<and> ((c \<in> set ks \<and> c_typ c \<noteq> c_typ candidateA
                      \<and> tagAt candidatePaths c pathA = Some typeA)
                  \<or> (c = candidateA
                      \<and> (\<exists>candidateB \<in> set ks. c_typ candidateB \<noteq> c_typ candidateA
                            \<and> tagAt candidatePaths candidateB pathA = Some typeA)))
            then None else tagAt candidatePaths c path))"
  using assms
proof (induction ks arbitrary: candidatePaths)
  case Nil
  then show ?case by simp
next
  case (Cons candidateB ks)
  show ?case
  proof (cases "c_typ candidateA = c_typ candidateB")
    case True
    with Cons.IH [OF Cons.prems] show ?thesis
      by auto
  next
    case False
    let ?cp = "makeUniquePaths_rangeB candidateA pathA typeA candidateB
                 (pathsOf candidatePaths candidateB) candidatePaths"
    note B = rangeB_effect [OF Cons.prems, of candidateA pathA typeA candidateB]
    note IH = Cons.IH [OF B(2)]
    from False have step: "makeUniquePaths_candidatesB candidateA pathA typeA (candidateB # ks) candidatePaths
        = makeUniquePaths_candidatesB candidateA pathA typeA ks ?cp"
      by simp
    show ?thesis
      unfolding step using IH B(1) False
      by (auto simp: B(3))
  qed
qed

lemma rangeA_effect:
  assumes "pathMaps candidatePaths" and "distinct (map fst pathsA)"
  shows "map fst (makeUniquePaths_rangeA candidateA pathsA candidatePaths) = map fst candidatePaths
    \<and> pathMaps (makeUniquePaths_rangeA candidateA pathsA candidatePaths)
    \<and> (\<forall>c path. tagAt (makeUniquePaths_rangeA candidateA pathsA candidatePaths) c path =
           (if \<exists>t. (path, t) \<in> set pathsA \<and> tagAt candidatePaths candidateA path = Some t
                 \<and> ((c \<in> set (map fst candidatePaths) \<and> c_typ c \<noteq> c_typ candidateA
                        \<and> tagAt candidatePaths c path = Some t)
                    \<or> (c = candidateA
                        \<and> (\<exists>candidateB \<in> set (map fst candidatePaths).
                              c_typ candidateB \<noteq> c_typ candidateA
                              \<and> tagAt candidatePaths candidateB path = Some t)))
            then None else tagAt candidatePaths c path))"
  using assms
proof (induction pathsA arbitrary: candidatePaths)
  case Nil
  then show ?case by simp
next
  case (Cons e pathsA)
  obtain pathA typeA where e: "e = (pathA, typeA)"
    by (cases e)
  from Cons.prems(2) have d: "distinct (map fst pathsA)" and fresh: "\<And>t. (pathA, t) \<notin> set pathsA"
    by (auto simp: e rev_image_eqI)
  show ?case
  proof (cases "tagAt candidatePaths candidateA pathA = Some typeA")
    case False
    then have step: "makeUniquePaths_rangeA candidateA (e # pathsA) candidatePaths
        = makeUniquePaths_rangeA candidateA pathsA candidatePaths"
      by (simp add: e tagAt_def)
    show ?thesis
      unfolding step using Cons.IH [OF Cons.prems(1) d] False fresh
      by (auto simp: e)
  next
    case True
    let ?cp = "makeUniquePaths_candidatesB candidateA pathA typeA (map fst candidatePaths)
                 candidatePaths"
    note B = candidatesB_effect [OF Cons.prems(1), of candidateA pathA typeA "map fst candidatePaths"]
    from B have keys: "map fst ?cp = map fst candidatePaths" and maps: "pathMaps ?cp"
      and tag: "\<And>c path. tagAt ?cp c path =
           (if path = pathA
               \<and> ((c \<in> set (map fst candidatePaths) \<and> c_typ c \<noteq> c_typ candidateA
                      \<and> tagAt candidatePaths c pathA = Some typeA)
                  \<or> (c = candidateA
                      \<and> (\<exists>candidateB \<in> set (map fst candidatePaths).
                            c_typ candidateB \<noteq> c_typ candidateA
                            \<and> tagAt candidatePaths candidateB pathA = Some typeA)))
            then None else tagAt candidatePaths c path)"
      by blast+
    from True have step: "makeUniquePaths_rangeA candidateA (e # pathsA) candidatePaths
        = makeUniquePaths_rangeA candidateA pathsA ?cp"
      by (simp add: e tagAt_def)
    note IH = Cons.IH [OF maps d]
    have other: "tagAt ?cp c path = tagAt candidatePaths c path" if "path \<noteq> pathA" for c path
      using that by (simp add: tag)
    show ?thesis
      unfolding step
    proof (intro conjI allI)
      show "map fst (makeUniquePaths_rangeA candidateA pathsA ?cp) = map fst candidatePaths"
        using IH keys by simp
      show "pathMaps (makeUniquePaths_rangeA candidateA pathsA ?cp)"
        using IH by simp
      fix c path
      show "tagAt (makeUniquePaths_rangeA candidateA pathsA ?cp) c path =
           (if \<exists>t. (path, t) \<in> set (e # pathsA) \<and> tagAt candidatePaths candidateA path = Some t
                 \<and> ((c \<in> set (map fst candidatePaths) \<and> c_typ c \<noteq> c_typ candidateA
                        \<and> tagAt candidatePaths c path = Some t)
                    \<or> (c = candidateA
                        \<and> (\<exists>candidateB \<in> set (map fst candidatePaths).
                              c_typ candidateB \<noteq> c_typ candidateA
                              \<and> tagAt candidatePaths candidateB path = Some t)))
            then None else tagAt candidatePaths c path)"
      proof (cases "path = pathA")
        case True
        with fresh have "\<And>t. (path, t) \<notin> set pathsA"
          by simp
        with IH have "tagAt (makeUniquePaths_rangeA candidateA pathsA ?cp) c path = tagAt ?cp c path"
          by simp
        with True \<open>tagAt candidatePaths candidateA pathA = Some typeA\<close> show ?thesis
          by (auto simp: tag e)
      next
        case False
        from IH have "tagAt (makeUniquePaths_rangeA candidateA pathsA ?cp) c path =
           (if \<exists>t. (path, t) \<in> set pathsA \<and> tagAt ?cp candidateA path = Some t
                 \<and> ((c \<in> set (map fst ?cp) \<and> c_typ c \<noteq> c_typ candidateA
                        \<and> tagAt ?cp c path = Some t)
                    \<or> (c = candidateA
                        \<and> (\<exists>candidateB \<in> set (map fst ?cp).
                              c_typ candidateB \<noteq> c_typ candidateA
                              \<and> tagAt ?cp candidateB path = Some t)))
            then None else tagAt ?cp c path)"
          by blast
        with False show ?thesis
          by (auto simp: other keys e)
      qed
    qed
  qed
qed

lemma rangeA_effect_own:
  assumes maps: "pathMaps candidatePaths"
    and inj: "inj_on c_typ (set (map fst candidatePaths))"
    and A: "candidateA \<in> set (map fst candidatePaths)"
    and c: "c \<in> set (map fst candidatePaths)"
  defines "candidatePaths' \<equiv> makeUniquePaths_rangeA candidateA
             (pathsOf candidatePaths candidateA) candidatePaths"
  shows "tagAt candidatePaths' c path =
           (if tagAt candidatePaths c path = tagAt candidatePaths candidateA path
               \<and> (\<exists>t. tagAt candidatePaths candidateA path = Some t
                     \<and> (\<exists>candidateB \<in> set (map fst candidatePaths).
                           candidateB \<noteq> candidateA \<and> tagAt candidatePaths candidateB path = Some t))
            then None else tagAt candidatePaths c path)"
proof -
  from maps have d: "distinct (map fst (pathsOf candidatePaths candidateA))"
    by (simp add: pathMaps_def)
  have differ: "c_typ x \<noteq> c_typ candidateA \<longleftrightarrow> x \<noteq> candidateA"
    if "x \<in> set (map fst candidatePaths)" for x
    using inj A that by (auto dest: inj_onD)
  from rangeA_effect [OF maps d, of candidateA]
  have "tagAt candidatePaths' c path =
     (if \<exists>t. tagAt candidatePaths candidateA path = Some t
           \<and> ((c \<in> set (map fst candidatePaths) \<and> c_typ c \<noteq> c_typ candidateA
                  \<and> tagAt candidatePaths c path = Some t)
              \<or> (c = candidateA
                  \<and> (\<exists>candidateB \<in> set (map fst candidatePaths).
                        c_typ candidateB \<noteq> c_typ candidateA
                        \<and> tagAt candidatePaths candidateB path = Some t)))
      then None else tagAt candidatePaths c path)"
    unfolding candidatePaths'_def by (simp add: pathMaps_mem [OF maps])
  also have "(\<exists>t. tagAt candidatePaths candidateA path = Some t
           \<and> ((c \<in> set (map fst candidatePaths) \<and> c_typ c \<noteq> c_typ candidateA
                  \<and> tagAt candidatePaths c path = Some t)
              \<or> (c = candidateA
                  \<and> (\<exists>candidateB \<in> set (map fst candidatePaths).
                        c_typ candidateB \<noteq> c_typ candidateA
                        \<and> tagAt candidatePaths candidateB path = Some t))))
      \<longleftrightarrow> (tagAt candidatePaths c path = tagAt candidatePaths candidateA path
               \<and> (\<exists>t. tagAt candidatePaths candidateA path = Some t
                     \<and> (\<exists>candidateB \<in> set (map fst candidatePaths).
                           candidateB \<noteq> candidateA \<and> tagAt candidatePaths candidateB path = Some t)))"
    using c differ by (cases "c = candidateA") auto
  finally show ?thesis .
qed

lemma candidatesA_effect:
  assumes "pathMaps candidatePaths"
    and "inj_on c_typ (set (map fst candidatePaths))"
    and "set candidates \<subseteq> set (map fst candidatePaths)"
  shows "map fst (makeUniquePaths_candidatesA candidates candidatePaths) = map fst candidatePaths
    \<and> pathMaps (makeUniquePaths_candidatesA candidates candidatePaths)
    \<and> (\<forall>c \<in> set (map fst candidatePaths). \<forall>path.
          tagAt (makeUniquePaths_candidatesA candidates candidatePaths) c path =
           (if \<exists>t. tagAt candidatePaths c path = Some t
                 \<and> (\<exists>candidateA \<in> set candidates. tagAt candidatePaths candidateA path = Some t
                       \<and> (\<exists>candidateB \<in> set (map fst candidatePaths).
                             candidateB \<noteq> candidateA
                             \<and> tagAt candidatePaths candidateB path = Some t))
            then None else tagAt candidatePaths c path))"
  using assms
proof (induction candidates arbitrary: candidatePaths)
  case Nil
  then show ?case by simp
next
  case (Cons candidateA candidates)
  let ?ks = "set (map fst candidatePaths)"
  let ?cp = "makeUniquePaths_rangeA candidateA (pathsOf candidatePaths candidateA) candidatePaths"
  from Cons.prems(3) have A: "candidateA \<in> ?ks" and rest: "set candidates \<subseteq> ?ks"
    by simp_all
  from Cons.prems(1) have d: "distinct (map fst (pathsOf candidatePaths candidateA))"
    by (simp add: pathMaps_def)
  from rangeA_effect [OF Cons.prems(1) d, of candidateA]
  have keys: "map fst ?cp = map fst candidatePaths" and maps: "pathMaps ?cp"
    by simp_all
  note own = rangeA_effect_own [OF Cons.prems(1,2) A]
  define shared where "shared path \<longleftrightarrow>
      (\<exists>t. tagAt candidatePaths candidateA path = Some t
         \<and> (\<exists>candidateB \<in> ?ks. candidateB \<noteq> candidateA
               \<and> tagAt candidatePaths candidateB path = Some t))" for path
  have own': "tagAt ?cp x path =
      (if tagAt candidatePaths x path = tagAt candidatePaths candidateA path \<and> shared path
       then None else tagAt candidatePaths x path)" if "x \<in> ?ks" for x path
    using own [OF that] unfolding shared_def by simp
  have inj': "inj_on c_typ (set (map fst ?cp))" and rest': "set candidates \<subseteq> set (map fst ?cp)"
    using Cons.prems(2) rest unfolding keys by simp_all
  note ih = Cons.IH [OF maps inj' rest', unfolded keys]
  from ih have IH: "map fst (makeUniquePaths_candidatesA candidates ?cp) = map fst candidatePaths"
    "pathMaps (makeUniquePaths_candidatesA candidates ?cp)"
    by blast+
  from ih have IH3: "tagAt (makeUniquePaths_candidatesA candidates ?cp) c path =
           (if \<exists>t. tagAt ?cp c path = Some t
                 \<and> (\<exists>a \<in> set candidates. tagAt ?cp a path = Some t
                       \<and> (\<exists>b \<in> ?ks. b \<noteq> a \<and> tagAt ?cp b path = Some t))
            then None else tagAt ?cp c path)" if "c \<in> ?ks" for c path
    using that by blast
  show ?case
  proof (intro conjI ballI allI)
    show "map fst (makeUniquePaths_candidatesA (candidateA # candidates) candidatePaths)
        = map fst candidatePaths"
      using IH(1) by simp
    show "pathMaps (makeUniquePaths_candidatesA (candidateA # candidates) candidatePaths)"
      using IH(2) by simp
    fix c path
    assume c: "c \<in> ?ks"
    let ?goal = "\<exists>t. tagAt candidatePaths c path = Some t
                 \<and> (\<exists>a \<in> set (candidateA # candidates). tagAt candidatePaths a path = Some t
                       \<and> (\<exists>b \<in> ?ks. b \<noteq> a \<and> tagAt candidatePaths b path = Some t))"
    have "tagAt (makeUniquePaths_candidatesA candidates ?cp) c path =
           (if ?goal then None else tagAt candidatePaths c path)"
    proof (cases "tagAt candidatePaths c path = tagAt candidatePaths candidateA path \<and> shared path")
      case True
      then have "tagAt ?cp c path = None"
        using own' [OF c] by simp
      then have "tagAt (makeUniquePaths_candidatesA candidates ?cp) c path = None"
        using IH3 [OF c] by simp
      moreover from True have ?goal
        unfolding shared_def by auto
      ultimately show ?thesis by simp
    next
      case False
      then have same: "tagAt ?cp c path = tagAt candidatePaths c path"
        using own' [OF c, of path] by auto
      show ?thesis
      proof (cases "tagAt candidatePaths c path")
        case None
        with same IH3 [OF c, of path] show ?thesis by simp
      next
        case (Some t)
        have keep: "tagAt ?cp x path = Some t \<longleftrightarrow> tagAt candidatePaths x path = Some t"
          if "x \<in> ?ks" for x
          using own' [OF that, of path] False Some by auto
        have "(\<exists>a \<in> set candidates. tagAt ?cp a path = Some t
                 \<and> (\<exists>b \<in> ?ks. b \<noteq> a \<and> tagAt ?cp b path = Some t))
            \<longleftrightarrow> (\<exists>a \<in> set candidates. tagAt candidatePaths a path = Some t
                 \<and> (\<exists>b \<in> ?ks. b \<noteq> a \<and> tagAt candidatePaths b path = Some t))"
          using keep rest by (meson subsetD)
        moreover have "\<not> (tagAt candidatePaths candidateA path = Some t
                 \<and> (\<exists>b \<in> ?ks. b \<noteq> candidateA \<and> tagAt candidatePaths b path = Some t))"
          using False Some unfolding shared_def by auto
        ultimately show ?thesis
          using IH3 [OF c, of path] same Some by auto
      qed
    qed
    then show "tagAt (makeUniquePaths_candidatesA (candidateA # candidates) candidatePaths) c path =
           (if ?goal then None else tagAt candidatePaths c path)"
      by simp
  qed
qed

lemma pathMaps_I:
  assumes "\<forall>(c, paths) \<in> set candidatePaths. distinct (map fst paths)"
  shows "pathMaps candidatePaths"
  unfolding pathMaps_def pathsOf_def
proof
  fix c
  show "distinct (map fst (case map_of candidatePaths c of None \<Rightarrow> [] | Some paths \<Rightarrow> paths))"
  proof (cases "map_of candidatePaths c")
    case None
    then show ?thesis by simp
  next
    case (Some paths)
    then have "(c, paths) \<in> set candidatePaths"
      by (rule map_of_SomeD)
    with assms Some show ?thesis by auto
  qed
qed

lemma pathsOf_entry:
  "distinct (map fst candidatePaths) \<Longrightarrow> (c, paths) \<in> set candidatePaths \<Longrightarrow>
   pathsOf candidatePaths c = paths"
  by (simp add: pathsOf_def)

lemma makeUniquePaths_tagAt:
  assumes types: "distinct (map (c_typ \<circ> fst) candidatePaths)"
    and maps: "\<forall>(c, paths) \<in> set candidatePaths. distinct (map fst paths)"
    and c: "c \<in> set (map fst candidatePaths)"
  shows "tagAt (makeUniquePaths candidatePaths) c path =
           (if \<exists>t. tagAt candidatePaths c path = Some t
                 \<and> (\<exists>candidateB \<in> set (map fst candidatePaths). candidateB \<noteq> c
                       \<and> tagAt candidatePaths candidateB path = Some t)
            then None else tagAt candidatePaths c path)"
proof -
  let ?ks = "set (map fst candidatePaths)"
  from types have "distinct (map c_typ (map fst candidatePaths))"
    by simp
  then have inj: "inj_on c_typ ?ks"
    by (simp only: distinct_map)
  note eff = candidatesA_effect [OF pathMaps_I [OF maps] inj subset_refl]
  from eff have "\<forall>c \<in> ?ks. \<forall>path.
          tagAt (makeUniquePaths candidatePaths) c path =
           (if \<exists>t. tagAt candidatePaths c path = Some t
                 \<and> (\<exists>candidateA \<in> ?ks. tagAt candidatePaths candidateA path = Some t
                       \<and> (\<exists>candidateB \<in> ?ks. candidateB \<noteq> candidateA
                             \<and> tagAt candidatePaths candidateB path = Some t))
            then None else tagAt candidatePaths c path)"
    unfolding makeUniquePaths_def by blast
  with c have "tagAt (makeUniquePaths candidatePaths) c path =
           (if \<exists>t. tagAt candidatePaths c path = Some t
                 \<and> (\<exists>candidateA \<in> ?ks. tagAt candidatePaths candidateA path = Some t
                       \<and> (\<exists>candidateB \<in> ?ks. candidateB \<noteq> candidateA
                             \<and> tagAt candidatePaths candidateB path = Some t))
            then None else tagAt candidatePaths c path)"
    by blast
  also have "(\<exists>t. tagAt candidatePaths c path = Some t
                 \<and> (\<exists>candidateA \<in> ?ks. tagAt candidatePaths candidateA path = Some t
                       \<and> (\<exists>candidateB \<in> ?ks. candidateB \<noteq> candidateA
                             \<and> tagAt candidatePaths candidateB path = Some t)))
      \<longleftrightarrow> (\<exists>t. tagAt candidatePaths c path = Some t
                 \<and> (\<exists>candidateB \<in> ?ks. candidateB \<noteq> c
                       \<and> tagAt candidatePaths candidateB path = Some t))"
    (is "?l \<longleftrightarrow> ?r")
  proof
    assume ?l
    then obtain t a b where t: "tagAt candidatePaths c path = Some t"
      and a: "a \<in> ?ks" "tagAt candidatePaths a path = Some t"
      and b: "b \<in> ?ks" "b \<noteq> a" "tagAt candidatePaths b path = Some t"
      by blast
    show ?r
    proof (cases "a = c")
      case True
      with t b show ?thesis by blast
    next
      case False
      with t a show ?thesis by blast
    qed
  next
    assume ?r
    with c show ?l
      by blast
  qed
  finally show ?thesis .
qed

lemma makeUniquePaths_keys:
  assumes "distinct (map (c_typ \<circ> fst) candidatePaths)"
    and "\<forall>(c, paths) \<in> set candidatePaths. distinct (map fst paths)"
  shows "map fst (makeUniquePaths candidatePaths) = map fst candidatePaths"
proof -
  from assms(1) have "distinct (map c_typ (map fst candidatePaths))"
    by simp
  then have "inj_on c_typ (set (map fst candidatePaths))"
    by (simp only: distinct_map)
  from candidatesA_effect [OF pathMaps_I [OF assms(2)] this subset_refl]
  show ?thesis
    unfolding makeUniquePaths_def by blast
qed

lemma tagAt_entry:
  assumes "distinct (map (c_typ \<circ> fst) candidatePaths)"
    and "\<forall>(c, paths) \<in> set candidatePaths. distinct (map fst paths)"
    and "(c, paths) \<in> set candidatePaths"
  shows "tagAt candidatePaths c path = Some kind \<longleftrightarrow> (path, kind) \<in> set paths"
proof -
  from assms(1) have "distinct (map c_typ (map fst candidatePaths))"
    by simp
  then have "distinct (map fst candidatePaths)"
    by (simp only: distinct_map)
  with assms(3) have "pathsOf candidatePaths c = paths"
    by (simp add: pathsOf_entry)
  moreover from assms(2,3) have "distinct (map fst paths)"
    by auto
  ultimately show ?thesis
    by (simp add: tagAt_def)
qed

text \<open>
  Go leaves the order of every \<^verbatim>\<open>range\<close> over a map open. The tags that a loop leaves
  depend on the set it runs over only, not on the order: for the loop over the candidates
  to compare with, for the loop over the entries of a candidate, and for the whole of
  \<^verbatim>\<open>makeUniquePaths\<close> when the types differ pairwise.
\<close>

lemma candidatesB_order:
  assumes "pathMaps candidatePaths" and "set ks = set ks'"
  shows "tagAt (makeUniquePaths_candidatesB candidateA pathA typeA ks candidatePaths) c path
       = tagAt (makeUniquePaths_candidatesB candidateA pathA typeA ks' candidatePaths) c path"
  using candidatesB_effect [OF assms(1), of candidateA pathA typeA ks]
    candidatesB_effect [OF assms(1), of candidateA pathA typeA ks'] assms(2)
  by simp

lemma rangeA_order:
  assumes "pathMaps candidatePaths" and "distinct (map fst pathsA)" and "distinct (map fst pathsA')"
    and "set pathsA = set pathsA'"
  shows "tagAt (makeUniquePaths_rangeA candidateA pathsA candidatePaths) c path
       = tagAt (makeUniquePaths_rangeA candidateA pathsA' candidatePaths) c path"
  using rangeA_effect [OF assms(1,2), of candidateA] rangeA_effect [OF assms(1,3), of candidateA]
    assms(4)
  by simp

lemma makeUniquePaths_order:
  assumes "distinct (map (c_typ \<circ> fst) candidatePaths)"
    and "\<forall>(c, paths) \<in> set candidatePaths. distinct (map fst paths)"
    and "distinct (map (c_typ \<circ> fst) candidatePaths')"
    and "\<forall>(c, paths) \<in> set candidatePaths'. distinct (map fst paths)"
    and keys: "set (map fst candidatePaths) = set (map fst candidatePaths')"
    and tags: "\<And>c path. tagAt candidatePaths c path = tagAt candidatePaths' c path"
    and c: "c \<in> set (map fst candidatePaths)"
  shows "tagAt (makeUniquePaths candidatePaths) c path
       = tagAt (makeUniquePaths candidatePaths') c path"
proof -
  from c keys have c': "c \<in> set (map fst candidatePaths')"
    by simp
  show ?thesis
    unfolding makeUniquePaths_tagAt [OF assms(1,2) c] makeUniquePaths_tagAt [OF assms(3,4) c']
    by (simp only: keys tags)
qed

text \<open>
  When no type is registered twice (and every inner list is a map), an entry that two
  candidates hold identically is absent from both maps after \<^verbatim>\<open>makeUniquePaths\<close>, and an
  entry that no other candidate holds stays. In particular, for two candidates with equal
  path-kind maps both fingerprints are empty, and every document then resolves to no match.
\<close>

lemma makeUniquePaths_removes_shared:
  assumes types: "distinct (map (c_typ \<circ> fst) candidatePaths)"
    and maps: "\<forall>(c, paths) \<in> set candidatePaths. distinct (map fst paths)"
  shows "(\<forall>candidateA pathsA candidateB pathsB path kind.
            (candidateA, pathsA) \<in> set candidatePaths \<and> (candidateB, pathsB) \<in> set candidatePaths
            \<and> candidateA \<noteq> candidateB \<and> (path, kind) \<in> set pathsA \<and> (path, kind) \<in> set pathsB
            \<longrightarrow> tagAt (makeUniquePaths candidatePaths) candidateA path = None
              \<and> tagAt (makeUniquePaths candidatePaths) candidateB path = None)
       \<and> (\<forall>candidateA pathsA path kind.
            (candidateA, pathsA) \<in> set candidatePaths \<and> (path, kind) \<in> set pathsA
            \<and> (\<forall>candidateB pathsB. (candidateB, pathsB) \<in> set candidatePaths
                  \<and> candidateB \<noteq> candidateA \<longrightarrow> (path, kind) \<notin> set pathsB)
            \<longrightarrow> tagAt (makeUniquePaths candidatePaths) candidateA path = Some kind)
       \<and> (\<forall>candidateA pathsA candidateB pathsB.
            candidatePaths = [(candidateA, pathsA), (candidateB, pathsB)] \<and> set pathsA = set pathsB
            \<longrightarrow> makeUniquePaths candidatePaths = [(candidateA, []), (candidateB, [])]
              \<and> (\<forall>r res. resolver_paths r = makeUniquePaths candidatePaths
                    \<longrightarrow> ResolveJSON r res = (None, None)))"
proof (intro conjI allI impI)
  note tag = makeUniquePaths_tagAt [OF types maps]
  note entry = tagAt_entry [OF types maps]
  have removed: "tagAt (makeUniquePaths candidatePaths) a path = None"
    if "(a, pathsA) \<in> set candidatePaths" "(b, pathsB) \<in> set candidatePaths" "a \<noteq> b"
      "(path, kind) \<in> set pathsA" "(path, kind) \<in> set pathsB"
    for a b pathsA pathsB path kind
  proof -
    from that have own: "tagAt candidatePaths a path = Some kind"
      and other: "tagAt candidatePaths b path = Some kind"
      by (simp_all add: entry)
    from that have a: "a \<in> set (map fst candidatePaths)" and b: "b \<in> set (map fst candidatePaths)"
      by force+
    from b that(3) other
    have "\<exists>candidateB \<in> set (map fst candidatePaths). candidateB \<noteq> a
            \<and> tagAt candidatePaths candidateB path = Some kind"
      by (intro bexI [of _ b]) auto
    with own show ?thesis
      using tag [OF a, of path] by simp
  qed
  {
    fix candidateA pathsA candidateB pathsB path kind
    assume a: "(candidateA, pathsA) \<in> set candidatePaths \<and> (candidateB, pathsB) \<in> set candidatePaths
            \<and> candidateA \<noteq> candidateB \<and> (path, kind) \<in> set pathsA \<and> (path, kind) \<in> set pathsB"
    from a show "tagAt (makeUniquePaths candidatePaths) candidateA path = None"
      by (blast intro: removed)
    from a show "tagAt (makeUniquePaths candidatePaths) candidateB path = None"
      by (blast intro: removed [of candidateB pathsB candidateA pathsA])
  }
  {
    fix candidateA pathsA path kind
    assume a: "(candidateA, pathsA) \<in> set candidatePaths \<and> (path, kind) \<in> set pathsA
            \<and> (\<forall>candidateB pathsB. (candidateB, pathsB) \<in> set candidatePaths
                  \<and> candidateB \<noteq> candidateA \<longrightarrow> (path, kind) \<notin> set pathsB)"
    then have own: "tagAt candidatePaths candidateA path = Some kind"
      using entry [of candidateA pathsA path kind] by blast
    have "\<not> (\<exists>candidateB \<in> set (map fst candidatePaths). candidateB \<noteq> candidateA
                \<and> tagAt candidatePaths candidateB path = Some kind)"
    proof
      assume "\<exists>candidateB \<in> set (map fst candidatePaths). candidateB \<noteq> candidateA
                \<and> tagAt candidatePaths candidateB path = Some kind"
      then obtain candidateB pathsB where "(candidateB, pathsB) \<in> set candidatePaths"
        "candidateB \<noteq> candidateA" "tagAt candidatePaths candidateB path = Some kind"
        by auto
      moreover from this have "(path, kind) \<in> set pathsB"
        using entry [of candidateB pathsB path kind] by blast
      ultimately show False
        using a by blast
    qed
    moreover from a have "candidateA \<in> set (map fst candidatePaths)"
      by force
    ultimately show "tagAt (makeUniquePaths candidatePaths) candidateA path = Some kind"
      using own tag [of candidateA path] by simp
  }
  fix candidateA pathsA candidateB pathsB
  assume two: "candidatePaths = [(candidateA, pathsA), (candidateB, pathsB)] \<and> set pathsA = set pathsB"
  with types have ne: "candidateA \<noteq> candidateB"
    by auto
  have empty: "pathsOf (makeUniquePaths candidatePaths) a = []"
    if "(a, pathsA') \<in> set candidatePaths" "(b, pathsB') \<in> set candidatePaths" "a \<noteq> b"
      "set pathsA' = set pathsB'" for a b pathsA' pathsB'
  proof -
    have "tagAt (makeUniquePaths candidatePaths) a path = None" for path
    proof (cases "tagAt candidatePaths a path")
      case None
      moreover from that have "a \<in> set (map fst candidatePaths)"
        by force
      ultimately show ?thesis
        using tag [of a path] by simp
    next
      case (Some kind)
      with that(1) have "(path, kind) \<in> set pathsA'"
        using entry [of a pathsA' path kind] by blast
      with that show ?thesis
        by (blast intro: removed)
    qed
    then have "map_of (pathsOf (makeUniquePaths candidatePaths) a) = Map.empty"
      by (simp add: tagAt_def fun_eq_iff)
    then show ?thesis
      by simp
  qed
  from makeUniquePaths_keys [OF types maps] two
  obtain x y where shape: "makeUniquePaths candidatePaths = [(candidateA, x), (candidateB, y)]"
    by (cases "makeUniquePaths candidatePaths"; cases "tl (makeUniquePaths candidatePaths)") auto
  from two have inA: "(candidateA, pathsA) \<in> set candidatePaths"
    and inB: "(candidateB, pathsB) \<in> set candidatePaths"
    and eq: "set pathsA = set pathsB"
    by simp_all
  have "pathsOf (makeUniquePaths candidatePaths) candidateA = []"
    by (rule empty [OF inA inB ne eq])
  moreover have "pathsOf (makeUniquePaths candidatePaths) candidateB = []"
    by (rule empty [OF inB inA ne [symmetric] eq [symmetric]])
  ultimately have "x = []" "y = []"
    using ne shape by (simp_all add: pathsOf_def)
  with shape show result: "makeUniquePaths candidatePaths = [(candidateA, []), (candidateB, [])]"
    by simp
  fix r :: traverseResolver and res
  assume "resolver_paths r = makeUniquePaths candidatePaths"
  with result show "ResolveJSON r res = (None, None)"
    by (simp add: ResolveJSON_def)
qed


text \<open>The two structs of \<^verbatim>\<open>cmd/main.go\<close>.\<close>

lemma makeUniquePaths_removes_shared_main:
  "tagAt (makeUniquePaths
            [(candidate 0 (Some main_s1), [((str ''foo''), gjson_String), ((str ''shared''), gjson_Number)]),
             (candidate 1 (Some main_s2), [((str ''bar''), gjson_String), ((str ''shared''), gjson_Number)])])
         (candidate 0 (Some main_s1)) (str ''shared'') = None
   \<and> tagAt (makeUniquePaths
            [(candidate 0 (Some main_s1), [((str ''foo''), gjson_String), ((str ''shared''), gjson_Number)]),
             (candidate 1 (Some main_s2), [((str ''bar''), gjson_String), ((str ''shared''), gjson_Number)])])
         (candidate 1 (Some main_s2)) (str ''shared'') = None
   \<and> tagAt (makeUniquePaths
            [(candidate 0 (Some main_s1), [((str ''foo''), gjson_String), ((str ''shared''), gjson_Number)]),
             (candidate 1 (Some main_s2), [((str ''bar''), gjson_String), ((str ''shared''), gjson_Number)])])
         (candidate 0 (Some main_s1)) (str ''foo'') = Some gjson_String
   \<and> makeUniquePaths [(candidate 0 (Some main_s1), [((str ''shared''), gjson_Number)]),
                       (candidate 1 (Some main_s2), [((str ''shared''), gjson_Number)])]
       = [(candidate 0 (Some main_s1), []), (candidate 1 (Some main_s2), [])]
   \<and> ResolveJSON \<lparr>resolver_env = main_env,
                    resolver_paths =
                      makeUniquePaths [(candidate 0 (Some main_s1), [((str ''shared''), gjson_Number)]),
                                       (candidate 1 (Some main_s2), [((str ''shared''), gjson_Number)])]\<rparr>
         (document [((str ''shared''), gjson_Number)]) = (None, None)"
proof -
  let ?cp = "[(candidate 0 (Some main_s1), [((str ''foo''), gjson_String), ((str ''shared''), gjson_Number)]),
              (candidate 1 (Some main_s2), [((str ''bar''), gjson_String), ((str ''shared''), gjson_Number)])]"
  let ?eq = "[(candidate 0 (Some main_s1), [((str ''shared''), gjson_Number)]),
              (candidate 1 (Some main_s2), [((str ''shared''), gjson_Number)])]"
  have ne: "main_s1 \<noteq> main_s2"
    by (simp add: main_s1_def main_s2_def)
  have "distinct (map (c_typ \<circ> fst) ?cp)" "\<forall>(c, paths) \<in> set ?cp. distinct (map fst paths)"
    using ne by simp_all
  note shared = makeUniquePaths_removes_shared [OF this]
  have "distinct (map (c_typ \<circ> fst) ?eq)" "\<forall>(c, paths) \<in> set ?eq. distinct (map fst paths)"
    using ne by simp_all
  note equal = makeUniquePaths_removes_shared [OF this]
  have "tagAt (makeUniquePaths ?cp) (candidate 0 (Some main_s1)) (str ''shared'') = None
      \<and> tagAt (makeUniquePaths ?cp) (candidate 1 (Some main_s2)) (str ''shared'') = None"
    using ne
      shared [THEN conjunct1, rule_format,
        of "candidate 0 (Some main_s1)" "[((str ''foo''), gjson_String), ((str ''shared''), gjson_Number)]"
           "candidate 1 (Some main_s2)" "[((str ''bar''), gjson_String), ((str ''shared''), gjson_Number)]"
           "(str ''shared'')" gjson_Number]
    by simp
  moreover
  have "tagAt (makeUniquePaths ?cp) (candidate 0 (Some main_s1)) (str ''foo'') = Some gjson_String"
  proof -
    have "(candidate 0 (Some main_s1), [((str ''foo''), gjson_String), ((str ''shared''), gjson_Number)])
            \<in> set ?cp
        \<and> ((str ''foo''), gjson_String) \<in> set [((str ''foo''), gjson_String), ((str ''shared''), gjson_Number)]
        \<and> (\<forall>candidateB pathsB. (candidateB, pathsB) \<in> set ?cp
              \<and> candidateB \<noteq> candidate 0 (Some main_s1)
              \<longrightarrow> ((str ''foo''), gjson_String) \<notin> set pathsB)"
      by auto
    with shared show ?thesis
      by blast
  qed
  moreover have "makeUniquePaths ?eq
       = [(candidate 0 (Some main_s1), []), (candidate 1 (Some main_s2), [])]
     \<and> ResolveJSON \<lparr>resolver_env = main_env, resolver_paths = makeUniquePaths ?eq\<rparr>
         (document [((str ''shared''), gjson_Number)]) = (None, None)"
  proof -
    have "?eq = [(candidate 0 (Some main_s1), [((str ''shared''), gjson_Number)]),
                 (candidate 1 (Some main_s2), [((str ''shared''), gjson_Number)])]
        \<and> set [((str ''shared''), gjson_Number)] = set [((str ''shared''), gjson_Number)]"
      by simp
    with equal have "makeUniquePaths ?eq
          = [(candidate 0 (Some main_s1), []), (candidate 1 (Some main_s2), [])]
        \<and> (\<forall>r res. resolver_paths r = makeUniquePaths ?eq \<longrightarrow> ResolveJSON r res = (None, None))"
      by blast
    then show ?thesis
      by simp
  qed
  ultimately show ?thesis
    by blast
qed


subsection \<open>The fingerprint builder on a type registered twice\<close>

text \<open>
  C2. The claim has every entry that two distinct candidates hold identically removed from
  the maps of all candidates that hold it, and two candidates with equal maps end with
  empty fingerprints, so that every document resolves to no match. \<^verbatim>\<open>makeUniquePaths\<close>
  compares a candidate only with candidates of another type, and only with the entries
  they still hold. With \<^verbatim>\<open>twice\<close> registered twice and \<^verbatim>\<open>once\<close> once, all three maps
  are \<^verbatim>\<open>shared\<close> with \<^verbatim>\<open>gjson.Number\<close>. When the candidates are produced in the order of
  registration, the first candidate of \<^verbatim>\<open>twice\<close> and the candidate of \<^verbatim>\<open>once\<close> lose the
  entry, and the second candidate of \<^verbatim>\<open>twice\<close> then finds the map of \<^verbatim>\<open>once\<close> empty and
  keeps it: \<^verbatim>\<open>once\<close> and \<^verbatim>\<open>twice\<close> are of different types and held the same entry, yet
  the document \<^verbatim>\<open>{"shared": 1}\<close> resolves to \<^verbatim>\<open>twice\<close>. When the candidate of \<^verbatim>\<open>once\<close>
  is produced first, all three maps end empty and the document resolves to no candidate.
\<close>

theorem makeUniquePaths_keeps_shared_entry:
  "newEnv twice_params = Return twice_env
   \<and> newTraverseResolver_range lowerCase [] (env_candidates twice_env)
       = Return [(candidate 0 (Some twice), [(str ''shared'', gjson_Number)]),
                 (candidate 1 (Some twice), [(str ''shared'', gjson_Number)]),
                 (candidate 2 (Some once), [(str ''shared'', gjson_Number)])]
   \<and> makeUniquePaths [(candidate 0 (Some twice), [(str ''shared'', gjson_Number)]),
                       (candidate 1 (Some twice), [(str ''shared'', gjson_Number)]),
                       (candidate 2 (Some once), [(str ''shared'', gjson_Number)])]
       = [(candidate 0 (Some twice), []),
          (candidate 1 (Some twice), [(str ''shared'', gjson_Number)]),
          (candidate 2 (Some once), [])]
   \<and> makeUniquePaths [(candidate 2 (Some once), [(str ''shared'', gjson_Number)]),
                       (candidate 0 (Some twice), [(str ''shared'', gjson_Number)]),
                       (candidate 1 (Some twice), [(str ''shared'', gjson_Number)])]
       = [(candidate 2 (Some once), []),
          (candidate 0 (Some twice), []),
          (candidate 1 (Some twice), [])]
   \<and> New lowerCase twice_params = Return \<lparr>resolver = Some (ResolveJSON twice_resolver)\<rparr>
   \<and> ResolveJSON twice_resolver (document [(str ''shared'', gjson_Number)]) = (Some twice, None)
   \<and> ResolveJSON \<lparr>resolver_env = twice_env,
                    resolver_paths = [(candidate 2 (Some once), []),
                                      (candidate 0 (Some twice), []),
                                      (candidate 1 (Some twice), [])]\<rparr>
        (document [(str ''shared'', gjson_Number)]) = (None, None)
   \<and> twice \<noteq> once"
proof -
  have env: "newEnv twice_params = Return twice_env"
    by code_simp
  have built: "newTraverseResolver_range lowerCase [] (env_candidates twice_env)
       = Return [(candidate 0 (Some twice), [(str ''shared'', gjson_Number)]),
                 (candidate 1 (Some twice), [(str ''shared'', gjson_Number)]),
                 (candidate 2 (Some once), [(str ''shared'', gjson_Number)])]"
    by code_simp
  have unique: "makeUniquePaths [(candidate 0 (Some twice), [(str ''shared'', gjson_Number)]),
                       (candidate 1 (Some twice), [(str ''shared'', gjson_Number)]),
                       (candidate 2 (Some once), [(str ''shared'', gjson_Number)])]
       = [(candidate 0 (Some twice), []),
          (candidate 1 (Some twice), [(str ''shared'', gjson_Number)]),
          (candidate 2 (Some once), [])]"
    by code_simp
  have other: "makeUniquePaths [(candidate 2 (Some once), [(str ''shared'', gjson_Number)]),
                       (candidate 0 (Some twice), [(str ''shared'', gjson_Number)]),
                       (candidate 1 (Some twice), [(str ''shared'', gjson_Number)])]
       = [(candidate 2 (Some once), []),
          (candidate 0 (Some twice), []),
          (candidate 1 (Some twice), [])]"
    by code_simp
  have new: "New lowerCase twice_params = Return \<lparr>resolver = Some (ResolveJSON twice_resolver)\<rparr>"
    using env built unique by (simp add: New_def newTraverseResolver_def twice_resolver_def)
  have resolve: "ResolveJSON twice_resolver (document [(str ''shared'', gjson_Number)])
      = (Some twice, None)"
    by (simp add: ResolveJSON_def twice_resolver_def document_def)
  have none: "ResolveJSON \<lparr>resolver_env = twice_env,
                    resolver_paths = [(candidate 2 (Some once), []),
                                      (candidate 0 (Some twice), []),
                                      (candidate 1 (Some twice), [])]\<rparr>
        (document [(str ''shared'', gjson_Number)]) = (None, None)"
    by (simp add: ResolveJSON_def)
  have types: "twice \<noteq> once"
    by (simp add: twice_def once_def)
  from env built unique other new resolve none types show ?thesis
    by (intro conjI)
qed

subsection \<open>The resolver\<close>

lemma ResolveJSON_paths_iff:
  "ResolveJSON_paths res paths \<longleftrightarrow> (\<exists>(path, typ') \<in> set paths. Result_Get res path = typ')"
  by (induction paths) auto

lemma ResolveJSON_range_first:
  assumes "\<forall>(c', paths') \<in> set pre. \<not> ResolveJSON_paths res paths'"
    and "ResolveJSON_paths res paths"
  shows "ResolveJSON_range (pre @ (c, paths) # post) res = (c_typ c, None)"
  using assms by (induction pre) auto

lemma ResolveJSON_range_none:
  assumes "\<forall>(c, paths) \<in> set candidatePaths. \<not> ResolveJSON_paths res paths"
  shows "ResolveJSON_range candidatePaths res = (None, None)"
  using assms by (induction candidatePaths) auto

lemma ResolveJSON_range_error: "snd (ResolveJSON_range candidatePaths res) = None"
  by (induction candidatePaths) auto

text \<open>
  C6. The resolver returns a candidate as soon as one entry of its fingerprint is found in
  the document with the entry's type tag, whatever its other entries are: with no match
  in the candidates produced before it, one matching entry makes \<^verbatim>\<open>ResolveJSON\<close> return
  the type of that candidate. When no entry of any candidate matches, it returns nil, and
  \<^verbatim>\<open>UnmarshalJSON\<close> on a document with an object at the root fails with \<^verbatim>\<open>ErrNoMatch\<close>
  without decoding.
\<close>

theorem ResolveJSON_one_entry_suffices:
  "(resolver_paths r = pre @ (c, paths) # post
      \<and> (\<forall>(c', paths') \<in> set pre. \<forall>(path', typ') \<in> set paths'. Result_Get res path' \<noteq> typ')
      \<and> (path, t) \<in> set paths \<and> Result_Get res path = t
      \<longrightarrow> ResolveJSON r res = (c_typ c, None))
   \<and> ((\<forall>(c', paths') \<in> set (resolver_paths r). \<forall>(path', typ') \<in> set paths'.
          Result_Get res path' \<noteq> typ')
      \<longrightarrow> ResolveJSON r res = (None, None)
        \<and> (\<forall>ParseBytes json_Unmarshal b. ParseBytes b = res \<and> Result_Type res = gjson_JSON
             \<longrightarrow> UnmarshalJSON ParseBytes json_Unmarshal \<lparr>resolver = Some (ResolveJSON r)\<rparr> b
                 = (Fail ErrNoMatch :: 'v outcome)))"
proof (intro conjI impI)
  assume a: "resolver_paths r = pre @ (c, paths) # post
      \<and> (\<forall>(c', paths') \<in> set pre. \<forall>(path', typ') \<in> set paths'. Result_Get res path' \<noteq> typ')
      \<and> (path, t) \<in> set paths \<and> Result_Get res path = t"
  then have "\<forall>(c', paths') \<in> set pre. \<not> ResolveJSON_paths res paths'"
    by (auto simp: ResolveJSON_paths_iff)
  moreover from a have "ResolveJSON_paths res paths"
    by (auto simp: ResolveJSON_paths_iff)
  ultimately show "ResolveJSON r res = (c_typ c, None)"
    using a by (simp add: ResolveJSON_def ResolveJSON_range_first)
next
  assume a: "\<forall>(c', paths') \<in> set (resolver_paths r). \<forall>(path', typ') \<in> set paths'.
          Result_Get res path' \<noteq> typ'"
  then have "\<forall>(c, paths) \<in> set (resolver_paths r). \<not> ResolveJSON_paths res paths"
    by (auto simp: ResolveJSON_paths_iff)
  then show n: "ResolveJSON r res = (None, None)"
    by (simp add: ResolveJSON_def ResolveJSON_range_none)
  show "\<forall>ParseBytes json_Unmarshal b. ParseBytes b = res \<and> Result_Type res = gjson_JSON
             \<longrightarrow> UnmarshalJSON ParseBytes json_Unmarshal \<lparr>resolver = Some (ResolveJSON r)\<rparr> b
                 = (Fail ErrNoMatch :: 'v outcome)"
    by (simp add: UnmarshalJSON_def n)
qed


theorem ResolveJSON_one_entry_suffices_witness:
  \<open>ResolveJSON main_resolver (document [((str ''bar''), gjson_String), ((str ''shared''), gjson_Number)])
     = (Some main_s2, None)
   \<and> ResolveJSON main_resolver (document [((str ''shared''), gjson_Number)]) = (None, None)
   \<and> UnmarshalJSON (\<lambda>b. document [((str ''shared''), gjson_Number)]) (\<lambda>b t. Return t)
        \<lparr>resolver = Some (ResolveJSON main_resolver)\<rparr> ''{"shared":3}'' = Fail ErrNoMatch\<close>
proof -
  have "ResolveJSON main_resolver (document [((str ''bar''), gjson_String), ((str ''shared''), gjson_Number)])
     = (c_typ (candidate 1 (Some main_s2)), None)"
    using ResolveJSON_one_entry_suffices
      [of main_resolver "[(candidate 0 (Some main_s1), [((str ''foo''), gjson_String)])]"
          "candidate 1 (Some main_s2)" "[((str ''bar''), gjson_String)]" "[]"
          "document [((str ''bar''), gjson_String), ((str ''shared''), gjson_Number)]"
          "(str ''bar'')" gjson_String]
    by (simp add: main_resolver_def document_def)
  moreover have \<open>ResolveJSON main_resolver (document [((str ''shared''), gjson_Number)]) = (None, None)
     \<and> UnmarshalJSON (\<lambda>b. document [((str ''shared''), gjson_Number)]) (\<lambda>b t. Return t)
        \<lparr>resolver = Some (ResolveJSON main_resolver)\<rparr> ''{"shared":3}'' = Fail ErrNoMatch\<close>
    using ResolveJSON_one_entry_suffices
      [of main_resolver _ _ _ _ "document [((str ''shared''), gjson_Number)]", where ?'v = rtype]
    by (simp add: main_resolver_def document_def)
  ultimately show ?thesis by simp
qed


text \<open>
  C10. The error result of \<^verbatim>\<open>ResolveJSON\<close> is nil on every document and every
  fingerprint set, so \<^verbatim>\<open>UnmarshalJSON\<close> on the resolver that \<^verbatim>\<open>New\<close> installs is the
  function without the branch that wraps a resolver error.
\<close>

theorem ResolveJSON_error_nil:
  "snd (ResolveJSON r res) = None
   \<and> UnmarshalJSON ParseBytes json_Unmarshal \<lparr>resolver = Some (ResolveJSON r)\<rparr> b =
       (if Result_Type (ParseBytes b) \<noteq> gjson_JSON
        then Fail (errors_New (str ''invalid json: not an object''))
        else (case fst (ResolveJSON r (ParseBytes b)) of
                None \<Rightarrow> Fail ErrNoMatch
              | Some t \<Rightarrow>
                  (case json_Unmarshal b t of
                     Fail err \<Rightarrow> Fail (fmt_Errorf ((str ''unmarshall: '') @ Error err) err)
                   | Panic msg \<Rightarrow> Panic msg
                   | Return v \<Rightarrow> Return v)))
   \<and> (\<forall>u. New lowerCase params = Return u \<longrightarrow> (\<exists>r. resolver u = Some (ResolveJSON r)))"
proof (intro conjI)
  show e: "snd (ResolveJSON r res) = None" for res
    by (simp add: ResolveJSON_def ResolveJSON_range_error)
  show "UnmarshalJSON ParseBytes json_Unmarshal \<lparr>resolver = Some (ResolveJSON r)\<rparr> b =
       (if Result_Type (ParseBytes b) \<noteq> gjson_JSON
        then Fail (errors_New (str ''invalid json: not an object''))
        else (case fst (ResolveJSON r (ParseBytes b)) of
                None \<Rightarrow> Fail ErrNoMatch
              | Some t \<Rightarrow>
                  (case json_Unmarshal b t of
                     Fail err \<Rightarrow> Fail (fmt_Errorf ((str ''unmarshall: '') @ Error err) err)
                   | Panic msg \<Rightarrow> Panic msg
                   | Return v \<Rightarrow> Return v)))"
    using e [of "ParseBytes b"]
    by (cases "ResolveJSON r (ParseBytes b)")
       (auto simp: UnmarshalJSON_def Let_def split: option.splits)
  show "\<forall>u. New lowerCase params = Return u \<longrightarrow> (\<exists>r. resolver u = Some (ResolveJSON r))"
    by (auto simp: New_def split: outcome.splits)
qed


theorem ResolveJSON_error_nil_witness:
  "snd (ResolveJSON main_resolver main_document) = None
     \<and> New lowerCase_Latin1 main_params = Return \<lparr>resolver = Some (ResolveJSON main_resolver)\<rparr>
     \<and> (\<exists>r. resolver \<lparr>resolver = Some (ResolveJSON main_resolver)\<rparr> = Some (ResolveJSON r))"
proof -
  note nil = ResolveJSON_error_nil
    [where r = main_resolver and res = main_document and ParseBytes = "\<lambda>b. main_document"
       and json_Unmarshal = "\<lambda>b t. Return t" and b = "[]" and lowerCase = lowerCase_Latin1
       and params = main_params]
  from nil have "snd (ResolveJSON main_resolver main_document) = None"
    by (rule conjunct1)
  moreover from nil main_New [of lowerCase_Latin1]
  have "\<exists>r. resolver \<lparr>resolver = Some (ResolveJSON main_resolver)\<rparr> = Some (ResolveJSON r)"
    by blast
  ultimately
  show "snd (ResolveJSON main_resolver main_document) = None
     \<and> New lowerCase_Latin1 main_params = Return \<lparr>resolver = Some (ResolveJSON main_resolver)\<rparr>
     \<and> (\<exists>r. resolver \<lparr>resolver = Some (ResolveJSON main_resolver)\<rparr> = Some (ResolveJSON r))"
    using main_New [of lowerCase_Latin1] by simp
qed

subsection \<open>The root of the document\<close>

text \<open>
  \<^verbatim>\<open>UnmarshalJSON\<close> rejects a buffer by the type tag of its root alone: a root whose tag
  is not \<^verbatim>\<open>gjson.JSON\<close> gives the error, before the resolver and the decoder are used.
\<close>

lemma UnmarshalJSON_root_guard:
  "Result_Type (ParseBytes b) \<noteq> gjson_JSON \<Longrightarrow>
   UnmarshalJSON ParseBytes json_Unmarshal u b = Fail (errors_New (str ''invalid json: not an object''))"
  by (simp add: UnmarshalJSON_def)

text \<open>
  C3. The claim has a buffer whose root is an array rejected like every root that is not
  an object. gjson gives an array the tag \<^verbatim>\<open>gjson.JSON\<close>, the tag of an object (the
  walker relies on it when it records \<^verbatim>\<open>gjson.JSON\<close> for a slice or an array). For
  such a buffer the call runs the resolver and never returns the error of a root that is
  not an object.
\<close>

theorem UnmarshalJSON_array_root_resolves:
  assumes "Result_Type (ParseBytes ''[1,2]'') = gjson_JSON"
  shows "UnmarshalJSON ParseBytes json_Unmarshal \<lparr>resolver = Some resolve\<rparr> ''[1,2]'' =
           (case resolve (ParseBytes ''[1,2]'') of
              (t, Some err) \<Rightarrow> Fail (fmt_Errorf ((str ''resolve: '') @ Error err) err)
            | (None, None) \<Rightarrow> Fail ErrNoMatch
            | (Some t, None) \<Rightarrow>
                (case json_Unmarshal ''[1,2]'' t of
                   Fail err \<Rightarrow> Fail (fmt_Errorf ((str ''unmarshall: '') @ Error err) err)
                 | Panic msg \<Rightarrow> Panic msg
                 | Return v \<Rightarrow> Return v))
         \<and> UnmarshalJSON ParseBytes json_Unmarshal \<lparr>resolver = Some resolve\<rparr> ''[1,2]''
             \<noteq> Fail (errors_New (str ''invalid json: not an object''))"
  using assms
  by (cases "resolve (ParseBytes ''[1,2]'')")
     (auto simp: UnmarshalJSON_def ErrNoMatch_def split: option.splits outcome.splits)

theorem UnmarshalJSON_array_root_resolves_witness:
  "UnmarshalJSON (\<lambda>b. document []) (\<lambda>b t. Return t)
     \<lparr>resolver = Some (ResolveJSON main_resolver)\<rparr> ''[1,2]'' = Fail ErrNoMatch"
  using UnmarshalJSON_array_root_resolves
    [of "\<lambda>b. document []" "\<lambda>b t. Return t" "ResolveJSON main_resolver"]
  by (simp add: document_def ResolveJSON_def main_resolver_def)


end
